theory Spec2Isabelle
  imports Main "HOL-Library.AList" "HOL-Library.Sublist"
begin

section \<open>Data model\<close>

text \<open>
  Capabilities, platform names and device ids are Python strings.  A Python \<open>dict\<close> is
  an association list maintained with \<open>AList.update\<close>: a new key is appended, an existing
  key keeps its position and takes the new value, which is the insertion order of a
  Python dictionary.  \<open>map_of\<close> is \<open>dict.get\<close>.
\<close>

type_synonym capability = string
type_synonym platform = string
type_synonym slots = "(capability \<times> platform) list"
type_synonym assignments = "(string \<times> slots) list"

text \<open>
  The device object of the API client library.  Only the attributes the integration
  reads are kept; the status object is left as a type parameter.
\<close>

record 'st device =
  device_id :: string
  label :: string
  capabilities :: "capability list"
  status :: 'st

text \<open>
  In the functions below the local variable \<open>capabilities\<close> of the source is written
  \<open>caps\<close>, the name \<open>capabilities\<close> being the field of the device.
\<close>

text \<open>
  Exceptions that cross the modelled functions.  \<open>BaseExceptionOnly\<close> stands for the
  exceptions that are not instances of \<open>Exception\<close> (task cancellation and the like),
  which an \<open>except Exception\<close> clause lets through.
\<close>

datatype exn =
    ClientResponseError int
  | ModuleNotFoundError string
  | OtherException string
  | BaseExceptionOnly string

fun is_Exception :: "exn \<Rightarrow> bool" where
  "is_Exception (BaseExceptionOnly _) = False"
| "is_Exception _ = True"

section \<open>Platform modules and their capability probes\<close>

text \<open>
  The \<open>Capability\<close> constants of the API client library that the platform tables
  use as keys.  The library is not part of the repository; each constant is given the
  capability id of the SmartThings API, a camel-case string.  Only the examples depend
  on these values.
\<close>

definition Capability_scene_control :: capability where "Capability_scene_control = ''sceneControl''"
definition Capability_button :: capability where "Capability_button = ''button''"
definition Capability_momentary :: capability where "Capability_momentary = ''momentary''"
definition Capability_panic_alarm :: capability where "Capability_panic_alarm = ''panicAlarm''"
definition Capability_water_sensor :: capability where "Capability_water_sensor = ''waterSensor''"
definition Capability_smoke_detector :: capability where "Capability_smoke_detector = ''smokeDetector''"
definition Capability_carbon_monoxide_detector :: capability where
  "Capability_carbon_monoxide_detector = ''carbonMonoxideDetector''"
definition Capability_chime :: capability where "Capability_chime = ''chime''"
definition Capability_media_input_source :: capability where
  "Capability_media_input_source = ''mediaInputSource''"
definition Capability_washer_operating_state :: capability where
  "Capability_washer_operating_state = ''washerOperatingState''"
definition Capability_dryer_operating_state :: capability where
  "Capability_dryer_operating_state = ''dryerOperatingState''"
definition Capability_dishwasher_operating_state :: capability where
  "Capability_dishwasher_operating_state = ''dishwasherOperatingState''"
definition Capability_oven_operating_state :: capability where
  "Capability_oven_operating_state = ''ovenOperatingState''"
definition Capability_robot_cleaner_cleaning_mode :: capability where
  "Capability_robot_cleaner_cleaning_mode = ''robotCleanerCleaningMode''"
definition Capability_robot_cleaner_movement :: capability where
  "Capability_robot_cleaner_movement = ''robotCleanerMovement''"
definition Capability_tv_channel :: capability where "Capability_tv_channel = ''tvChannel''"
definition Capability_audio_volume :: capability where "Capability_audio_volume = ''audioVolume''"
definition Capability_media_playback :: capability where "Capability_media_playback = ''mediaPlayback''"
definition Capability_refrigeration_setpoint :: capability where
  "Capability_refrigeration_setpoint = ''refrigerationSetpoint''"
definition Capability_oven_setpoint :: capability where "Capability_oven_setpoint = ''ovenSetpoint''"
definition Capability_infrared_level :: capability where "Capability_infrared_level = ''infraredLevel''"
definition Capability_washer_mode :: capability where "Capability_washer_mode = ''washerMode''"
definition Capability_dryer_mode :: capability where "Capability_dryer_mode = ''dryerMode''"
definition Capability_air_conditioner_mode :: capability where
  "Capability_air_conditioner_mode = ''airConditionerMode''"
definition Capability_dishwasher_mode :: capability where "Capability_dishwasher_mode = ''dishwasherMode''"
definition Capability_oven_mode :: capability where "Capability_oven_mode = ''ovenMode''"

text \<open>
  The keys of the capability tables of the platform modules, in declaration order (the
  order in which iterating the dictionary yields them).  The configuration values of the
  tables play no part in capability assignment.
\<close>

definition CAPABILITY_TO_BUTTON :: "capability list" where
  "CAPABILITY_TO_BUTTON =
    [Capability_scene_control, Capability_button, Capability_momentary,
     Capability_panic_alarm, Capability_water_sensor, Capability_smoke_detector,
     Capability_carbon_monoxide_detector, Capability_chime, Capability_media_input_source,
     Capability_washer_operating_state, Capability_dryer_operating_state,
     Capability_dishwasher_operating_state, Capability_oven_operating_state,
     Capability_robot_cleaner_cleaning_mode]"

definition CAPABILITY_TO_MEDIA_PLAYER :: "capability list" where
  "CAPABILITY_TO_MEDIA_PLAYER =
    [Capability_tv_channel, Capability_audio_volume, Capability_media_playback,
     Capability_media_input_source]"

definition CAPABILITY_TO_NUMBER :: "capability list" where
  "CAPABILITY_TO_NUMBER =
    [Capability_audio_volume, Capability_refrigeration_setpoint, Capability_oven_setpoint,
     Capability_infrared_level]"

definition CAPABILITY_TO_SELECT :: "capability list" where
  "CAPABILITY_TO_SELECT =
    [Capability_washer_mode, Capability_dryer_mode, Capability_air_conditioner_mode,
     Capability_dishwasher_mode, Capability_oven_mode, Capability_robot_cleaner_cleaning_mode,
     Capability_media_input_source]"

definition CAPABILITY_TO_VACUUM :: "capability list" where
  "CAPABILITY_TO_VACUUM = [Capability_robot_cleaner_cleaning_mode, Capability_robot_cleaner_movement]"

text \<open>
  A probe takes the offered capabilities and returns a fresh list or \<open>None\<close>; it does
  not change its argument.  The four
  \<open>get_capabilities\<close> functions of button, media_player, number and select share one
  body: the keys of the module's table that occur in the argument, or \<open>None\<close> when there
  are none.
\<close>

type_synonym probe = "capability list \<Rightarrow> capability list option"

definition table_probe :: "capability list \<Rightarrow> probe" where
  "table_probe table caps =
     (let supported = filter (\<lambda>capability. capability \<in> set caps) table
      in if supported \<noteq> [] then Some supported else None)"

definition button_get_capabilities :: probe where
  "button_get_capabilities = table_probe CAPABILITY_TO_BUTTON"

definition media_player_get_capabilities :: probe where
  "media_player_get_capabilities = table_probe CAPABILITY_TO_MEDIA_PLAYER"

definition number_get_capabilities :: probe where
  "number_get_capabilities = table_probe CAPABILITY_TO_NUMBER"

definition select_get_capabilities :: probe where
  "select_get_capabilities = table_probe CAPABILITY_TO_SELECT"

text \<open>The vacuum module's function filters its argument by the table instead.\<close>

definition get_vacuum_capabilities :: probe where
  "get_vacuum_capabilities caps =
     (let vacuum_capabilities = filter (\<lambda>cap. cap \<in> set CAPABILITY_TO_VACUUM) caps
      in if vacuum_capabilities \<noteq> [] then Some vacuum_capabilities else None)"

text \<open>
  A platform module is its namespace of probe functions: attribute name to function.
  \<open>hasattr\<close> asks whether the name is bound.
\<close>

type_synonym platform_module = "string \<rightharpoonup> probe"

definition hasattr :: "platform_module \<Rightarrow> string \<Rightarrow> bool" where
  "hasattr platform_module name = (platform_module name \<noteq> None)"

definition button_module :: platform_module where
  "button_module = [''get_capabilities'' \<mapsto> button_get_capabilities]"

definition media_player_module :: platform_module where
  "media_player_module = [''get_capabilities'' \<mapsto> media_player_get_capabilities]"

definition number_module :: platform_module where
  "number_module = [''get_capabilities'' \<mapsto> number_get_capabilities]"

definition select_module :: platform_module where
  "select_module = [''get_capabilities'' \<mapsto> select_get_capabilities]"

definition vacuum_module :: platform_module where
  "vacuum_module = [''get_vacuum_capabilities'' \<mapsto> get_vacuum_capabilities]"

text \<open>
  \<open>importlib.import_module\<close> on a platform name.  The five modules above are the
  repository's; any other platform name is resolved by the parameter \<open>other\<close>, and a name
  that resolves to nothing raises.
\<close>

definition import_module :: "(string \<rightharpoonup> platform_module) \<Rightarrow> string \<rightharpoonup> platform_module" where
  "import_module other name =
     (if name = ''button'' then Some button_module
      else if name = ''media_player'' then Some media_player_module
      else if name = ''number'' then Some number_module
      else if name = ''select'' then Some select_module
      else if name = ''vacuum'' then Some vacuum_module
      else other name)"

section \<open>Capability slot assignment\<close>

text \<open>
  The innermost loop of \<open>DeviceBroker._assign_capabilities\<close>: for each capability the
  platform returned, skip it when it is no longer in the pool, otherwise remove its
  first occurrence from the pool and record the platform in the slot dictionary.
\<close>

fun draw_down ::
  "platform \<Rightarrow> capability list \<Rightarrow> capability list \<times> slots \<Rightarrow> capability list \<times> slots" where
  "draw_down platform [] (caps, slots) = (caps, slots)"
| "draw_down platform (capability # assigned) (caps, slots) =
     (if capability \<notin> set caps
      then draw_down platform assigned (caps, slots)
      else draw_down platform assigned
             (remove1 capability caps, AList.update capability platform slots))"

text \<open>
  The loop over the platform list for one device.  A module without a
  \<open>get_capabilities\<close> attribute is skipped, and so is a platform whose probe returns
  \<open>None\<close> or an empty list.
\<close>

fun assign_platforms ::
  "(string \<rightharpoonup> platform_module) \<Rightarrow> platform list \<Rightarrow> capability list \<times> slots
     \<Rightarrow> exn + capability list \<times> slots" where
  "assign_platforms imp [] st = Inr st"
| "assign_platforms imp (platform # rest) (caps, slots) =
     (case imp platform of
        None \<Rightarrow> Inl (ModuleNotFoundError platform)
      | Some platform_module \<Rightarrow>
          (case platform_module ''get_capabilities'' of
             None \<Rightarrow> assign_platforms imp rest (caps, slots)
           | Some get_capabilities \<Rightarrow>
               (case get_capabilities caps of
                  None \<Rightarrow> assign_platforms imp rest (caps, slots)
                | Some assigned \<Rightarrow>
                    if assigned = [] then assign_platforms imp rest (caps, slots)
                    else assign_platforms imp rest
                           (draw_down platform assigned (caps, slots)))))"

text \<open>The loop over the devices, threading the \<open>assignments\<close> dictionary.\<close>

fun assign_devices ::
  "(string \<rightharpoonup> platform_module) \<Rightarrow> platform list \<Rightarrow> 'st device list \<Rightarrow> assignments
     \<Rightarrow> exn + assignments" where
  "assign_devices imp PLATFORMS [] assignments = Inr assignments"
| "assign_devices imp PLATFORMS (device # devices) assignments =
     (case assign_platforms imp PLATFORMS (capabilities device, []) of
        Inl e \<Rightarrow> Inl e
      | Inr (_, slots) \<Rightarrow>
          assign_devices imp PLATFORMS devices
            (AList.update (device_id device) slots assignments))"

text \<open>
  \<open>DeviceBroker._assign_capabilities\<close>, written \<open>assign_capabilities\<close> (an identifier
  cannot start with an underscore).  The platform list \<open>PLATFORMS\<close> is declared in the
  integration's constants module and is a parameter here, as is the module resolution
  \<open>imp\<close>.
\<close>

definition assign_capabilities ::
  "(string \<rightharpoonup> platform_module) \<Rightarrow> platform list \<Rightarrow> 'st device list \<Rightarrow> exn + assignments" where
  "assign_capabilities imp PLATFORMS devices = assign_devices imp PLATFORMS devices []"

section \<open>The device broker\<close>

text \<open>
  The broker state the modelled methods read and write: the installed application id,
  the assignment table and the dictionary of devices by id.  The constructor computes
  the assignment table, which may raise, and then builds the dictionary from the device
  list.
\<close>

record 'st DeviceBroker =
  installed_app_id :: string
  broker_assignments :: assignments
  devices :: "(string \<times> 'st device) list"

fun devices_by_id :: "'st device list \<Rightarrow> (string \<times> 'st device) list \<Rightarrow> (string \<times> 'st device) list" where
  "devices_by_id [] acc = acc"
| "devices_by_id (device # rest) acc = devices_by_id rest (AList.update (device_id device) device acc)"

definition DeviceBroker_init ::
  "(string \<rightharpoonup> platform_module) \<Rightarrow> platform list \<Rightarrow> string \<Rightarrow> 'st device list
     \<Rightarrow> exn + 'st DeviceBroker" where
  "DeviceBroker_init imp PLATFORMS entry_installed_app_id device_list =
     (case assign_capabilities imp PLATFORMS device_list of
        Inl e \<Rightarrow> Inl e
      | Inr a \<Rightarrow> Inr \<lparr> installed_app_id = entry_installed_app_id,
                       broker_assignments = a,
                       devices = devices_by_id device_list [] \<rparr>)"

text \<open>
  \<open>get_assigned\<close> lists the keys whose value is the platform; \<open>any_assigned\<close> applies
  \<open>any\<close> to the values equal to the platform, so each is tested for truthiness, and a
  string is truthy when it is not empty.
\<close>

definition get_assigned :: "'st DeviceBroker \<Rightarrow> string \<Rightarrow> platform \<Rightarrow> capability list" where
  "get_assigned self dev_id platform =
     (let slots = (case map_of (broker_assignments self) dev_id of None \<Rightarrow> [] | Some s \<Rightarrow> s)
      in map fst (filter (\<lambda>(key, value). value = platform) slots))"

definition any_assigned :: "'st DeviceBroker \<Rightarrow> string \<Rightarrow> platform \<Rightarrow> bool" where
  "any_assigned self dev_id platform =
     (let slots = (case map_of (broker_assignments self) dev_id of None \<Rightarrow> [] | Some s \<Rightarrow> s)
      in list_ex (\<lambda>value. value \<noteq> [])
           (filter (\<lambda>value. value = platform) (map snd slots)))"

text \<open>
  A platform claims a capability of a device when its module has a probe that returns
  the capability on some pool drawn from the device's capability list.  The pools the
  loop offers are subsequences of that list, since capabilities are only ever removed.
\<close>

definition claimed_by ::
  "(string \<rightharpoonup> platform_module) \<Rightarrow> platform \<Rightarrow> capability list \<Rightarrow> capability \<Rightarrow> bool" where
  "claimed_by imp p caps c =
     (case imp p of
        None \<Rightarrow> False
      | Some m \<Rightarrow>
          (case m ''get_capabilities'' of
             None \<Rightarrow> False
           | Some g \<Rightarrow>
               list_ex (\<lambda>pool. case g pool of None \<Rightarrow> False | Some ys \<Rightarrow> c \<in> set ys)
                 (subseqs caps)))"

text \<open>
  Section 4.1 of the specification, written from its words for comparison with the
  loops above: platforms are visited in their declared order, each is asked which of
  the still-unclaimed capabilities it supports, its matches are taken out of the pool
  before the next platform is asked, and a capability belongs to the first platform
  that claimed it.
\<close>

fun spec_draw_down ::
  "(string \<rightharpoonup> platform_module) \<Rightarrow> platform list \<Rightarrow> capability list
     \<Rightarrow> exn + (capability \<rightharpoonup> platform)" where
  "spec_draw_down imp [] pool = Inr Map.empty"
| "spec_draw_down imp (p # ps) pool =
     (case imp p of
        None \<Rightarrow> Inl (ModuleNotFoundError p)
      | Some m \<Rightarrow>
          (let claimed =
                 (case m ''get_capabilities'' of
                    None \<Rightarrow> []
                  | Some g \<Rightarrow>
                      (case g pool of
                         None \<Rightarrow> []
                       | Some ys \<Rightarrow> filter (\<lambda>c. c \<in> set pool) ys))
           in case spec_draw_down imp ps (filter (\<lambda>c. c \<notin> set claimed) pool) of
                Inl e \<Rightarrow> Inl e
              | Inr later \<Rightarrow> Inr (\<lambda>c. if c \<in> set claimed then Some p else later c)))"

section \<open>Push-event dispatch\<close>

text \<open>Python values carried by events, service calls and status attributes.\<close>

datatype pyval =
    PNone
  | PBool bool
  | PInt int
  | PStr string
  | PList "pyval list"
  | PDict "(string \<times> pyval) list"

fun truthy :: "pyval \<Rightarrow> bool" where
  "truthy PNone = False"
| "truthy (PBool b) = b"
| "truthy (PInt i) = (i \<noteq> 0)"
| "truthy (PStr s) = (s \<noteq> [])"
| "truthy (PList xs) = (xs \<noteq> [])"
| "truthy (PDict kvs) = (kvs \<noteq> [])"

record event =
  evt_event_type :: string
  evt_device_id :: string
  evt_component_id :: string
  evt_capability :: string
  evt_attribute :: string
  evt_value :: pyval
  evt_data :: pyval
  evt_location_id :: string

record request =
  req_installed_app_id :: string
  req_events :: "event list"

text \<open>
  Constants of the two client libraries: the event type of a device event, and the
  \<open>button\<close> attribute (the \<open>button\<close> capability is declared with the other
  capabilities).
\<close>

definition EVENT_TYPE_DEVICE :: string where "EVENT_TYPE_DEVICE = ''DEVICE_EVENT''"
definition Attribute_button :: string where "Attribute_button = ''button''"

text \<open>
  What the handlers do to the host, in the order they do it: an event fired on the bus
  with its data dictionary, a dispatcher signal with the set it carries, a log record
  with its level and format string.
\<close>

datatype level = DEBUG | INFO | ERROR

datatype effect =
    BusFire string "(string \<times> pyval) list"
  | DispatcherSend string "string set"
  | Log level string

fun is_BusFire :: "effect \<Rightarrow> bool" where
  "is_BusFire (BusFire _ _) = True"
| "is_BusFire _ = False"

fun is_DispatcherSend :: "effect \<Rightarrow> bool" where
  "is_DispatcherSend (DispatcherSend _ _) = True"
| "is_DispatcherSend _ = False"

text \<open>The data dictionary of the button event, keys in the order the source writes them.\<close>

definition button_event_data :: "event \<Rightarrow> string \<Rightarrow> (string \<times> pyval) list" where
  "button_event_data evt device_label =
     [(''component_id'', PStr (evt_component_id evt)),
      (''device_id'', PStr (evt_device_id evt)),
      (''location_id'', PStr (evt_location_id evt)),
      (''value'', evt_value evt),
      (''name'', PStr device_label),
      (''data'', evt_data evt)]"

text \<open>
  The status update of the API client library, applied to the status object in place.
  It is a parameter of the handler and is taken to return normally.
\<close>

type_synonym 'st attribute_update = "'st \<Rightarrow> string \<Rightarrow> string \<Rightarrow> string \<Rightarrow> pyval \<Rightarrow> pyval \<Rightarrow> 'st"

text \<open>
  The loop of \<open>DeviceBroker._event_handler\<close> over the events of a request.  The state
  is the device dictionary, the effects so far and the set \<open>updated_devices\<close>.  The
  device object is mutated in place, which is an update of its dictionary entry; a
  device object is truthy, so the lookup fails the test only when the id is absent.
  The names \<open>EVENT_BUTTON\<close> and \<open>SIGNAL_SMARTTHINGS_UPDATE\<close> are declared in the
  integration's constants module and are parameters here.
\<close>

fun handle_events ::
  "'st attribute_update \<Rightarrow> string \<Rightarrow> event list
     \<Rightarrow> (string \<times> 'st device) list \<times> effect list \<times> string set
     \<Rightarrow> (string \<times> 'st device) list \<times> effect list \<times> string set" where
  "handle_events apply_attribute_update EVENT_BUTTON [] st = st"
| "handle_events apply_attribute_update EVENT_BUTTON (evt # rest) (devs, effects, updated_devices) =
     (if evt_event_type evt \<noteq> EVENT_TYPE_DEVICE
      then handle_events apply_attribute_update EVENT_BUTTON rest (devs, effects, updated_devices)
      else
        (case map_of devs (evt_device_id evt) of
           None \<Rightarrow>
             handle_events apply_attribute_update EVENT_BUTTON rest (devs, effects, updated_devices)
         | Some device \<Rightarrow>
             (let device' = device\<lparr>status :=
                    apply_attribute_update (status device) (evt_component_id evt)
                      (evt_capability evt) (evt_attribute evt) (evt_value evt) (evt_data evt)\<rparr>;
                  devs' = AList.update (evt_device_id evt) device' devs;
                  effects' =
                    (if evt_capability evt = Capability_button \<and> evt_attribute evt = Attribute_button
                     then effects @ [BusFire EVENT_BUTTON (button_event_data evt (label device')),
                                     Log DEBUG ''Fired button event: %s'']
                     else effects @ [Log DEBUG ''Push update received: %s''])
              in handle_events apply_attribute_update EVENT_BUTTON rest
                   (devs', effects', insert (device_id device') updated_devices))))"

text \<open>\<open>DeviceBroker._event_handler\<close>: the new broker state and the effects, in order.\<close>

definition event_handler ::
  "'st attribute_update \<Rightarrow> string \<Rightarrow> string \<Rightarrow> 'st DeviceBroker \<Rightarrow> request
     \<Rightarrow> 'st DeviceBroker \<times> effect list" where
  "event_handler apply_attribute_update EVENT_BUTTON SIGNAL_SMARTTHINGS_UPDATE self req =
     (if req_installed_app_id req \<noteq> installed_app_id self then (self, [])
      else
        (case handle_events apply_attribute_update EVENT_BUTTON (req_events req)
                (devices self, [], {}) of
           (devs, effects, updated_devices) \<Rightarrow>
             (self\<lparr>devices := devs\<rparr>,
              effects @ [DispatcherSend SIGNAL_SMARTTHINGS_UPDATE updated_devices])))"

text \<open>
  The broker's dictionary is keyed by the id of the device it holds; the constructor
  builds it so and the handler keeps it so.
\<close>

definition keyed_by_id :: "(string \<times> 'st device) list \<Rightarrow> bool" where
  "keyed_by_id devs = list_all (\<lambda>(k, d). device_id d = k) devs"

text \<open>
  The vocabulary of the claims about a batch: an event the handler processes is a
  device event whose device id is in the broker's dictionary; a button event has the
  button capability and the button attribute; the label of a held device.
\<close>

definition known_device_event :: "(string \<times> 'st device) list \<Rightarrow> event \<Rightarrow> bool" where
  "known_device_event devs evt =
     (evt_event_type evt = EVENT_TYPE_DEVICE \<and> map_of devs (evt_device_id evt) \<noteq> None)"

definition is_button_event :: "event \<Rightarrow> bool" where
  "is_button_event evt =
     (evt_capability evt = Capability_button \<and> evt_attribute evt = Attribute_button)"

definition device_label :: "(string \<times> 'st device) list \<Rightarrow> string \<Rightarrow> string" where
  "device_label devs k = (case map_of devs k of Some d \<Rightarrow> label d | None \<Rightarrow> [])"

section \<open>Scenes, commands and availability\<close>

record config_entry =
  entry_title :: string
  entry_location_id :: string

definition HTTPStatus_FORBIDDEN :: int where "HTTPStatus_FORBIDDEN = 403"

text \<open>
  \<open>async_get_entry_scenes\<close>.  The scene request of the API client is a parameter: it
  returns the scenes of a location or raises.
\<close>

definition async_get_entry_scenes ::
  "(string \<Rightarrow> exn + 'sc list) \<Rightarrow> config_entry \<Rightarrow> effect list \<times> (exn + 'sc list)" where
  "async_get_entry_scenes get_scenes entry =
     (case get_scenes (entry_location_id entry) of
        Inr scenes \<Rightarrow> ([], Inr scenes)
      | Inl (ClientResponseError st) \<Rightarrow>
          if st = HTTPStatus_FORBIDDEN
          then ([Log ERROR ''Unable to load scenes for configuration entry '%s' because the access token does not have the required access''], Inr [])
          else ([], Inl (ClientResponseError st))
      | Inl ex \<Rightarrow> ([], Inl ex))"

text \<open>\<open>dict.get\<close> with a default.\<close>

definition dict_get :: "(string \<times> pyval) list \<Rightarrow> string \<Rightarrow> pyval \<Rightarrow> pyval" where
  "dict_get d k dflt = (case map_of d k of None \<Rightarrow> dflt | Some v \<Rightarrow> v)"

text \<open>
  The \<open>send_command\<close> service handler.  The command request of the API client built
  for the first config entry is a parameter; its arguments are device id, capability,
  command, component and argument list.
\<close>

definition send_command_service ::
  "(config_entry \<Rightarrow> pyval \<Rightarrow> pyval \<Rightarrow> pyval \<Rightarrow> pyval \<Rightarrow> pyval \<Rightarrow> exn + unit)
     \<Rightarrow> config_entry list \<Rightarrow> (string \<times> pyval) list \<Rightarrow> effect list \<times> (exn + unit)" where
  "send_command_service execute_device_command entries call_data =
     (let dev_id = dict_get call_data ''device_id'' PNone;
          component_id = dict_get call_data ''component_id'' (PStr ''main'');
          capability = dict_get call_data ''capability'' PNone;
          command = dict_get call_data ''command'' PNone;
          arguments = dict_get call_data ''arguments'' (PList [])
      in if \<not> list_all truthy [dev_id, capability, command]
         then ([Log ERROR ''send_command requires device_id, capability, and command''], Inr ())
         else
           (case entries of
              [] \<Rightarrow> ([Log ERROR ''No SmartThings integration configured''], Inr ())
            | entry # _ \<Rightarrow>
                (case execute_device_command entry dev_id capability command component_id arguments of
                   Inr _ \<Rightarrow> ([Log INFO ''Command sent to %s: %s.%s(%s)''], Inr ())
                 | Inl ex \<Rightarrow>
                     if is_Exception ex
                     then ([Log ERROR ''Failed to send command to %s: %s.%s(%s) - Error: %s''], Inr ())
                     else ([], Inl ex))))"

text \<open>The button entity and its press action; the device command is a parameter.\<close>

record 'st SmartThingsButton =
  button_device :: "'st device"
  button_capability :: string
  button_command :: string
  button_attr_name :: string

definition async_press ::
  "('st device \<Rightarrow> string \<Rightarrow> string \<Rightarrow> string \<Rightarrow> pyval list \<Rightarrow> exn + 'r)
     \<Rightarrow> 'st SmartThingsButton \<Rightarrow> effect list \<times> (exn + unit)" where
  "async_press device_command self =
     (case device_command (button_device self) ''main'' (button_capability self)
             (button_command self) [] of
        Inr result \<Rightarrow> ([Log INFO ''Button pressed: %s executed %s.%s - Result: %s''], Inr ())
      | Inl ex \<Rightarrow>
          if is_Exception ex
          then ([Log ERROR ''Failed to press button %s (%s.%s): %s''], Inl ex)
          else ([], Inl ex))"

text \<open>
  The entity base class.  For \<open>available\<close> the status object is its attribute
  namespace: \<open>hasattr\<close> is membership of the name, the attribute read is the lookup.
\<close>

type_synonym status_object = "string \<rightharpoonup> pyval"

record SmartThingsEntity =
  entity_device :: "status_object device"

definition available :: "SmartThingsEntity \<Rightarrow> bool" where
  "available self =
     (case status (entity_device self) ''switch_state'' of
        Some switch_state \<Rightarrow> switch_state \<noteq> PStr ''unavailable''
      | None \<Rightarrow> True)"

section \<open>Example values\<close>

text \<open>
  A television and a doorbell, a status object kept as a dictionary of attribute values
  with an update that stores the value under the attribute, a platform list made of the
  five platform modules above, and a request with five events: a button press of the
  doorbell, a volume change of the television, an event of a device the broker does not
  hold, an event that is not a device event, and a second event of the television.
\<close>

definition example_update :: "(string \<times> pyval) list attribute_update" where
  "example_update st component_id cap attribute v d = AList.update attribute v st"

definition example_tv :: "(string \<times> pyval) list device" where
  "example_tv = \<lparr>device_id = ''tv-1'', label = ''Living room TV'',
     capabilities = [''switch'', ''audioVolume'', ''mediaInputSource''], status = []\<rparr>"

definition example_doorbell :: "(string \<times> pyval) list device" where
  "example_doorbell = \<lparr>device_id = ''bell-1'', label = ''Front door'',
     capabilities = [''button'', ''battery''], status = []\<rparr>"

definition example_PLATFORMS :: "platform list" where
  "example_PLATFORMS = [''button'', ''media_player'', ''number'', ''select'', ''vacuum'']"

definition example_assignments :: assignments where
  "example_assignments =
     [(''tv-1'', [(''mediaInputSource'', ''button''), (''audioVolume'', ''media_player'')]),
      (''bell-1'', [(''button'', ''button'')])]"

definition example_broker :: "(string \<times> pyval) list DeviceBroker" where
  "example_broker = \<lparr>installed_app_id = ''app-1'', broker_assignments = example_assignments,
     devices = [(''tv-1'', example_tv), (''bell-1'', example_doorbell)]\<rparr>"

definition example_events :: "event list" where
  "example_events =
     [\<lparr>evt_event_type = ''DEVICE_EVENT'', evt_device_id = ''bell-1'', evt_component_id = ''main'',
       evt_capability = ''button'', evt_attribute = ''button'', evt_value = PStr ''pushed'',
       evt_data = PNone, evt_location_id = ''loc-1''\<rparr>,
      \<lparr>evt_event_type = ''DEVICE_EVENT'', evt_device_id = ''tv-1'', evt_component_id = ''main'',
       evt_capability = ''audioVolume'', evt_attribute = ''volume'', evt_value = PInt 12,
       evt_data = PNone, evt_location_id = ''loc-1''\<rparr>,
      \<lparr>evt_event_type = ''DEVICE_EVENT'', evt_device_id = ''lamp-9'', evt_component_id = ''main'',
       evt_capability = ''button'', evt_attribute = ''button'', evt_value = PStr ''held'',
       evt_data = PNone, evt_location_id = ''loc-1''\<rparr>,
      \<lparr>evt_event_type = ''MODE_EVENT'', evt_device_id = ''bell-1'', evt_component_id = ''main'',
       evt_capability = ''button'', evt_attribute = ''button'', evt_value = PStr ''pushed'',
       evt_data = PNone, evt_location_id = ''loc-1''\<rparr>,
      \<lparr>evt_event_type = ''DEVICE_EVENT'', evt_device_id = ''tv-1'', evt_component_id = ''main'',
       evt_capability = ''switch'', evt_attribute = ''switch'', evt_value = PStr ''on'',
       evt_data = PNone, evt_location_id = ''loc-1''\<rparr>]"

definition example_request :: request where
  "example_request = \<lparr>req_installed_app_id = ''app-1'', req_events = example_events\<rparr>"

definition example_foreign_request :: request where
  "example_foreign_request = \<lparr>req_installed_app_id = ''app-2'', req_events = example_events\<rparr>"

section \<open>Properties of capability assignment\<close>

lemma draw_down_keys:
  "draw_down p ys (caps, sl) = (caps', sl') \<Longrightarrow>
     fst ` set sl' \<subseteq> fst ` set sl \<union> (set ys \<inter> set caps)"
proof (induction ys arbitrary: caps sl)
  case Nil
  then show ?case by simp
next
  case (Cons y ys)
  show ?case
  proof (cases "y \<in> set caps")
    case False
    with Cons.prems have "draw_down p ys (caps, sl) = (caps', sl')" by simp
    from Cons.IH[OF this] show ?thesis by auto
  next
    case True
    with Cons.prems
    have "draw_down p ys (remove1 y caps, AList.update y p sl) = (caps', sl')" by simp
    from Cons.IH[OF this] have
      "fst ` set sl' \<subseteq> fst ` set (AList.update y p sl) \<union> (set ys \<inter> set (remove1 y caps))" .
    moreover have "set (remove1 y caps) \<subseteq> set caps" by (rule set_remove1_subset)
    ultimately show ?thesis using True by (auto simp: dom_update)
  qed
qed

lemma draw_down_pool:
  "draw_down p ys (caps, sl) = (caps', sl') \<Longrightarrow> set caps' \<subseteq> set caps"
proof (induction ys arbitrary: caps sl)
  case Nil
  then show ?case by simp
next
  case (Cons y ys)
  show ?case
  proof (cases "y \<in> set caps")
    case False
    with Cons.prems have "draw_down p ys (caps, sl) = (caps', sl')" by simp
    from Cons.IH[OF this] show ?thesis .
  next
    case True
    with Cons.prems
    have "draw_down p ys (remove1 y caps, AList.update y p sl) = (caps', sl')" by simp
    from Cons.IH[OF this] have "set caps' \<subseteq> set (remove1 y caps)" .
    then show ?thesis using set_remove1_subset[of y caps] by blast
  qed
qed

lemma draw_down_distinct_keys:
  "draw_down p ys (caps, sl) = (caps', sl') \<Longrightarrow> distinct (map fst sl) \<Longrightarrow> distinct (map fst sl')"
proof (induction ys arbitrary: caps sl)
  case Nil
  then show ?case by simp
next
  case (Cons y ys)
  show ?case
  proof (cases "y \<in> set caps")
    case False
    with Cons.prems have "draw_down p ys (caps, sl) = (caps', sl')" by simp
    from Cons.IH[OF this Cons.prems(2)] show ?thesis .
  next
    case True
    with Cons.prems
    have "draw_down p ys (remove1 y caps, AList.update y p sl) = (caps', sl')" by simp
    moreover have "distinct (map fst (AList.update y p sl))"
      using Cons.prems(2) by (rule distinct_update)
    ultimately show ?thesis by (rule Cons.IH)
  qed
qed

lemma update_values: "snd ` set (AList.update k v al) \<subseteq> insert v (snd ` set al)"
  by (induction al) auto

lemma draw_down_values:
  "draw_down p ys (caps, sl) = (caps', sl') \<Longrightarrow> snd ` set sl' \<subseteq> insert p (snd ` set sl)"
proof (induction ys arbitrary: caps sl)
  case Nil
  then show ?case by auto
next
  case (Cons y ys)
  show ?case
  proof (cases "y \<in> set caps")
    case False
    with Cons.prems have "draw_down p ys (caps, sl) = (caps', sl')" by simp
    from Cons.IH[OF this] show ?thesis .
  next
    case True
    with Cons.prems
    have "draw_down p ys (remove1 y caps, AList.update y p sl) = (caps', sl')" by simp
    from Cons.IH[OF this] have "snd ` set sl' \<subseteq> insert p (snd ` set (AList.update y p sl))" .
    with update_values[of y p sl] show ?thesis by blast
  qed
qed

lemma claimed_byI:
  "imp p = Some m \<Longrightarrow> m ''get_capabilities'' = Some g \<Longrightarrow> subseq pool caps \<Longrightarrow>
     g pool = Some ys \<Longrightarrow> c \<in> set ys \<Longrightarrow> claimed_by imp p caps c"
  unfolding claimed_by_def list_ex_iff by force

lemma claimed_byE:
  assumes "claimed_by imp p caps c"
  obtains m g pool ys where "imp p = Some m" "m ''get_capabilities'' = Some g"
    "subseq pool caps" "g pool = Some ys" "c \<in> set ys"
proof -
  from assms obtain m where m: "imp p = Some m"
    by (cases "imp p") (simp_all add: claimed_by_def)
  from assms m obtain g where g: "m ''get_capabilities'' = Some g"
    by (cases "m ''get_capabilities''") (simp_all add: claimed_by_def)
  from assms m g obtain pool where pool: "subseq pool caps"
    and "case g pool of None \<Rightarrow> False | Some ys \<Rightarrow> c \<in> set ys"
    by (auto simp: claimed_by_def list_ex_iff)
  then obtain ys where "g pool = Some ys" "c \<in> set ys"
    by (cases "g pool") simp_all
  with m g pool show thesis by (rule that)
qed

lemma claimed_by_mono:
  assumes "subseq caps1 caps" and "claimed_by imp p caps1 c"
  shows "claimed_by imp p caps c"
proof -
  from assms(2) obtain m g pool ys where h: "imp p = Some m" "m ''get_capabilities'' = Some g"
    "subseq pool caps1" "g pool = Some ys" "c \<in> set ys"
    by (rule claimed_byE)
  from h(3) assms(1) have "subseq pool caps" by (rule subseq_order.trans)
  with h(1,2) show ?thesis using h(4,5) by (rule claimed_byI)
qed

lemma subseq_remove1: "subseq (remove1 y xs) xs"
  by (induction xs) auto

lemma draw_down_subseq:
  "draw_down p ys (caps, sl) = (caps', sl') \<Longrightarrow> subseq caps' caps"
proof (induction ys arbitrary: caps sl)
  case Nil
  then show ?case by simp
next
  case (Cons y ys)
  show ?case
  proof (cases "y \<in> set caps")
    case False
    with Cons.prems have "draw_down p ys (caps, sl) = (caps', sl')" by simp
    then show ?thesis by (rule Cons.IH)
  next
    case True
    with Cons.prems
    have "draw_down p ys (remove1 y caps, AList.update y p sl) = (caps', sl')" by simp
    then have "subseq caps' (remove1 y caps)" by (rule Cons.IH)
    then show ?thesis using subseq_remove1 by (rule subseq_order.trans)
  qed
qed

section \<open>Invariants of the platform loop\<close>

text \<open>One step of the platform loop: the platform is skipped, or it claims a list.\<close>

lemma assign_platforms_step:
  assumes "assign_platforms imp (p # ps) (caps, sl) = Inr res"
  obtains (skip) "assign_platforms imp ps (caps, sl) = Inr res"
  | (claim) m g ys where "imp p = Some m" and "m ''get_capabilities'' = Some g"
      and "g caps = Some ys"
      and "assign_platforms imp ps (draw_down p ys (caps, sl)) = Inr res"
proof (cases "imp p")
  case None
  with assms show ?thesis by simp
next
  case (Some m)
  note m = this
  show ?thesis
  proof (cases "m ''get_capabilities''")
    case None
    with m assms have "assign_platforms imp ps (caps, sl) = Inr res" by simp
    then show ?thesis by (rule skip)
  next
    case (Some g)
    note g = this
    show ?thesis
    proof (cases "g caps")
      case None
      with m g assms have "assign_platforms imp ps (caps, sl) = Inr res" by simp
      then show ?thesis by (rule skip)
    next
      case (Some ys)
      show ?thesis
      proof (cases "ys = []")
        case True
        with m g Some assms have "assign_platforms imp ps (caps, sl) = Inr res" by simp
        then show ?thesis by (rule skip)
      next
        case False
        with m g Some assms have "assign_platforms imp ps (draw_down p ys (caps, sl)) = Inr res"
          by simp
        with m g Some show ?thesis by (rule claim)
      qed
    qed
  qed
qed

lemma assign_platforms_subseq:
  "assign_platforms imp ps (caps, sl) = Inr (caps', sl') \<Longrightarrow> subseq caps' caps"
proof (induction ps arbitrary: caps sl)
  case Nil
  then show ?case by simp
next
  case (Cons p ps)
  from Cons.prems show ?case
  proof (cases rule: assign_platforms_step)
    case skip
    then show ?thesis by (rule Cons.IH)
  next
    case (claim m g ys)
    obtain caps1 sl1 where dd: "draw_down p ys (caps, sl) = (caps1, sl1)"
      by (cases "draw_down p ys (caps, sl)")
    with claim(4) have "assign_platforms imp ps (caps1, sl1) = Inr (caps', sl')" by simp
    then have "subseq caps' caps1" by (rule Cons.IH)
    then show ?thesis using draw_down_subseq[OF dd] by (rule subseq_order.trans)
  qed
qed

lemma assign_platforms_distinct_keys:
  "assign_platforms imp ps (caps, sl) = Inr (caps', sl') \<Longrightarrow> distinct (map fst sl)
     \<Longrightarrow> distinct (map fst sl')"
proof (induction ps arbitrary: caps sl)
  case Nil
  then show ?case by simp
next
  case (Cons p ps)
  from Cons.prems(1) show ?case
  proof (cases rule: assign_platforms_step)
    case skip
    then show ?thesis using Cons.prems(2) by (rule Cons.IH)
  next
    case (claim m g ys)
    obtain caps1 sl1 where dd: "draw_down p ys (caps, sl) = (caps1, sl1)"
      by (cases "draw_down p ys (caps, sl)")
    with claim(4) have "assign_platforms imp ps (caps1, sl1) = Inr (caps', sl')" by simp
    moreover have "distinct (map fst sl1)"
      using dd Cons.prems(2) by (rule draw_down_distinct_keys)
    ultimately show ?thesis by (rule Cons.IH)
  qed
qed

text \<open>
  Every key added by the platform loop is a capability of the pool that a platform of
  the list claimed.
\<close>

lemma assign_platforms_claimed:
  "assign_platforms imp ps (caps, sl) = Inr (caps', sl') \<Longrightarrow> c \<in> fst ` set sl'
     \<Longrightarrow> c \<in> fst ` set sl \<or> (c \<in> set caps \<and> (\<exists>p \<in> set ps. claimed_by imp p caps c))"
proof (induction ps arbitrary: caps sl)
  case Nil
  then show ?case by simp
next
  case (Cons p ps)
  from Cons.prems(1) show ?case
  proof (cases rule: assign_platforms_step)
    case skip
    from Cons.IH[OF this Cons.prems(2)] show ?thesis by auto
  next
    case (claim m g ys)
    obtain caps1 sl1 where dd: "draw_down p ys (caps, sl) = (caps1, sl1)"
      by (cases "draw_down p ys (caps, sl)")
    note k = draw_down_keys[OF dd] and ss = draw_down_subseq[OF dd]
    note pl = draw_down_pool[OF dd]
    from claim(4) dd have "assign_platforms imp ps (caps1, sl1) = Inr (caps', sl')" by simp
    from Cons.IH[OF this Cons.prems(2)]
    consider (old) "c \<in> fst ` set sl1"
      | (new) q where "c \<in> set caps1" "q \<in> set ps" "claimed_by imp q caps1 c"
      by blast
    then show ?thesis
    proof cases
      case old
      with k have "c \<in> fst ` set sl \<or> (c \<in> set ys \<and> c \<in> set caps)" by blast
      then show ?thesis
      proof
        assume "c \<in> fst ` set sl"
        then show ?thesis ..
      next
        assume c: "c \<in> set ys \<and> c \<in> set caps"
        have "subseq caps caps" by simp
        with claim(1,2) have "claimed_by imp p caps c"
          using claim(3) by (rule claimed_byI) (simp add: c)
        with c show ?thesis by simp
      qed
    next
      case new
      from ss new(3) have "claimed_by imp q caps c" by (rule claimed_by_mono)
      with new(1,2) pl show ?thesis by auto
    qed
  qed
qed

lemma assign_platforms_values:
  "assign_platforms imp ps (caps, sl) = Inr (caps', sl') \<Longrightarrow> v \<in> snd ` set sl'
     \<Longrightarrow> v \<in> snd ` set sl
       \<or> (v \<in> set ps \<and> (\<exists>m. imp v = Some m \<and> hasattr m ''get_capabilities''))"
proof (induction ps arbitrary: caps sl)
  case Nil
  then show ?case by simp
next
  case (Cons p ps)
  from Cons.prems(1) show ?case
  proof (cases rule: assign_platforms_step)
    case skip
    from Cons.IH[OF this Cons.prems(2)] show ?thesis by auto
  next
    case (claim m g ys)
    obtain caps1 sl1 where dd: "draw_down p ys (caps, sl) = (caps1, sl1)"
      by (cases "draw_down p ys (caps, sl)")
    note dv = draw_down_values[OF dd]
    from claim(2) have ha: "hasattr m ''get_capabilities''" by (simp add: hasattr_def)
    from claim(4) dd have "assign_platforms imp ps (caps1, sl1) = Inr (caps', sl')" by simp
    from Cons.IH[OF this Cons.prems(2)]
    have "v \<in> snd ` set sl1
       \<or> (v \<in> set ps \<and> (\<exists>m. imp v = Some m \<and> hasattr m ''get_capabilities''))" .
    then show ?thesis
    proof
      assume "v \<in> snd ` set sl1"
      with dv have "v = p \<or> v \<in> snd ` set sl" by blast
      with claim(1) ha show ?thesis by auto
    next
      assume "v \<in> set ps \<and> (\<exists>m. imp v = Some m \<and> hasattr m ''get_capabilities'')"
      then show ?thesis by simp
    qed
  qed
qed

text \<open>
  The device loop: every device gets an entry, and every entry of the result was in the
  starting table or is the slot dictionary computed for a device with that id.
\<close>

lemma assign_devices_dom:
  "assign_devices imp P devs acc = Inr asg \<Longrightarrow>
     (\<forall>d \<in> set devs. map_of asg (device_id d) \<noteq> None)
     \<and> (\<forall>k. map_of acc k \<noteq> None \<longrightarrow> map_of asg k \<noteq> None)"
proof (induction devs arbitrary: acc)
  case Nil
  then show ?case by simp
next
  case (Cons d devs)
  from Cons.prems obtain caps' sl where
    rest: "assign_devices imp P devs (AList.update (device_id d) sl acc) = Inr asg"
    by (auto split: sum.splits)
  note ih = Cons.IH[OF rest]
  have m: "map_of (AList.update (device_id d) sl acc) = (map_of acc)(device_id d \<mapsto> sl)"
    by (rule update_conv')
  from ih have "map_of asg (device_id d) \<noteq> None" by (simp add: m)
  moreover from ih have "\<forall>k. map_of acc k \<noteq> None \<longrightarrow> map_of asg k \<noteq> None"
    by (simp add: m)
  ultimately show ?case using ih by simp
qed

lemma assign_devices_entry:
  "assign_devices imp P devs acc = Inr asg \<Longrightarrow> map_of asg did = Some sl \<Longrightarrow>
     map_of acc did = Some sl
     \<or> (\<exists>d \<in> set devs. device_id d = did \<and>
           (\<exists>caps'. assign_platforms imp P (capabilities d, []) = Inr (caps', sl)))"
proof (induction devs arbitrary: acc)
  case Nil
  then show ?case by simp
next
  case (Cons d devs)
  from Cons.prems(1) obtain caps' sl0 where
    ap: "assign_platforms imp P (capabilities d, []) = Inr (caps', sl0)" and
    rest: "assign_devices imp P devs (AList.update (device_id d) sl0 acc) = Inr asg"
    by (auto split: sum.splits)
  have m: "map_of (AList.update (device_id d) sl0 acc) = (map_of acc)(device_id d \<mapsto> sl0)"
    by (rule update_conv')
  from Cons.IH[OF rest Cons.prems(2)]
  show ?case
  proof
    assume "map_of (AList.update (device_id d) sl0 acc) did = Some sl"
    then have "(did = device_id d \<and> sl = sl0) \<or> map_of acc did = Some sl"
      by (simp add: m split: if_splits)
    with ap show ?thesis by auto
  next
    assume "\<exists>d' \<in> set devs. device_id d' = did \<and>
               (\<exists>caps'. assign_platforms imp P (capabilities d', []) = Inr (caps', sl))"
    then show ?thesis by auto
  qed
qed

text \<open>The assignment table of the two example devices.\<close>

lemma example_assign:
  "assign_capabilities (import_module Map.empty) example_PLATFORMS
       [example_tv, example_doorbell] = Inr example_assignments"
  by (simp add: assign_capabilities_def import_module_def example_PLATFORMS_def
        example_tv_def example_doorbell_def example_assignments_def
        button_module_def media_player_module_def number_module_def select_module_def
        vacuum_module_def button_get_capabilities_def media_player_get_capabilities_def
        number_get_capabilities_def select_get_capabilities_def table_probe_def
        CAPABILITY_TO_BUTTON_def CAPABILITY_TO_MEDIA_PLAYER_def CAPABILITY_TO_NUMBER_def
        CAPABILITY_TO_SELECT_def
        Capability_scene_control_def Capability_button_def Capability_momentary_def
        Capability_panic_alarm_def Capability_water_sensor_def Capability_smoke_detector_def
        Capability_carbon_monoxide_detector_def Capability_chime_def
        Capability_media_input_source_def Capability_washer_operating_state_def
        Capability_dryer_operating_state_def Capability_dishwasher_operating_state_def
        Capability_oven_operating_state_def Capability_robot_cleaner_cleaning_mode_def
        Capability_tv_channel_def Capability_audio_volume_def Capability_media_playback_def
        Capability_refrigeration_setpoint_def Capability_oven_setpoint_def
        Capability_infrared_level_def Capability_washer_mode_def Capability_dryer_mode_def
        Capability_air_conditioner_mode_def Capability_dishwasher_mode_def Capability_oven_mode_def)

section \<open>Assignment returns when every platform module resolves\<close>

lemma assign_platforms_returns:
  "\<forall>p \<in> set ps. imp p \<noteq> None \<Longrightarrow> \<exists>res. assign_platforms imp ps st = Inr res"
proof (induction ps arbitrary: st)
  case Nil
  then show ?case by simp
next
  case (Cons p ps)
  obtain caps sl where st: "st = (caps, sl)" by (cases st)
  from Cons.prems obtain m where m: "imp p = Some m" by auto
  from Cons.prems have r: "\<forall>q \<in> set ps. imp q \<noteq> None" by simp
  have "assign_platforms imp (p # ps) (caps, sl) = assign_platforms imp ps (caps, sl)
      \<or> (\<exists>ys. assign_platforms imp (p # ps) (caps, sl)
                 = assign_platforms imp ps (draw_down p ys (caps, sl)))"
    using m by (simp split: option.splits) blast
  then obtain st' where "assign_platforms imp (p # ps) (caps, sl) = assign_platforms imp ps st'"
    by blast
  with Cons.IH[OF r, of st'] st show ?case by simp
qed

lemma assign_devices_returns:
  "\<forall>p \<in> set P. imp p \<noteq> None \<Longrightarrow> \<exists>asg. assign_devices imp P devs acc = Inr asg"
proof (induction devs arbitrary: acc)
  case Nil
  then show ?case by simp
next
  case (Cons d devs)
  from assign_platforms_returns[OF Cons.prems, of "(capabilities d, [])"]
  obtain caps' sl where "assign_platforms imp P (capabilities d, []) = Inr (caps', sl)"
    by auto
  with Cons.IH[OF Cons.prems, of "AList.update (device_id d) sl acc"] show ?case by simp
qed

lemma assign_capabilities_returns:
  "\<forall>p \<in> set PLATFORMS. imp p \<noteq> None \<Longrightarrow> \<exists>asg. assign_capabilities imp PLATFORMS devs = Inr asg"
  unfolding assign_capabilities_def by (rule assign_devices_returns)

section \<open>The slot mapping of every device\<close>

text \<open>
  Claim C1.  Whatever the platform list and its order, when \<open>_assign_capabilities\<close>
  returns, every device passed to it has an entry, and every entry is the slot
  dictionary of a device with that id in which each capability occurs as a key at most
  once (so it is assigned to one platform only), every key is one of the device's
  original capabilities, and a capability that no platform of the list claims is not a
  key.
\<close>

theorem assign_capabilities_slots:
  assumes "assign_capabilities imp PLATFORMS devs = Inr asg"
  shows "(\<forall>d \<in> set devs. map_of asg (device_id d) \<noteq> None)
       \<and> (\<forall>did sl. map_of asg did = Some sl \<longrightarrow>
            (\<exists>d \<in> set devs. device_id d = did
               \<and> distinct (map fst sl)
               \<and> fst ` set sl \<subseteq> set (capabilities d)
               \<and> (\<forall>c. (\<forall>p \<in> set PLATFORMS. \<not> claimed_by imp p (capabilities d) c)
                      \<longrightarrow> c \<notin> fst ` set sl)))"
proof (intro conjI allI impI)
  from assms have ad: "assign_devices imp PLATFORMS devs [] = Inr asg"
    by (simp add: assign_capabilities_def)
  from assign_devices_dom[OF ad]
  show "\<forall>d \<in> set devs. map_of asg (device_id d) \<noteq> None" by simp
  fix did sl
  assume "map_of asg did = Some sl"
  with assign_devices_entry[OF ad this] obtain d caps' where d: "d \<in> set devs" "device_id d = did"
    and ap: "assign_platforms imp PLATFORMS (capabilities d, []) = Inr (caps', sl)"
    by auto
  from assign_platforms_distinct_keys[OF ap] have a: "distinct (map fst sl)" by simp
  have b: "c \<in> set (capabilities d) \<and> (\<exists>p \<in> set PLATFORMS. claimed_by imp p (capabilities d) c)"
    if "c \<in> fst ` set sl" for c
    using assign_platforms_claimed[OF ap that] by simp
  from b have "fst ` set sl \<subseteq> set (capabilities d)" by blast
  moreover from b have "\<forall>c. (\<forall>p \<in> set PLATFORMS. \<not> claimed_by imp p (capabilities d) c)
                      \<longrightarrow> c \<notin> fst ` set sl" by blast
  ultimately show "\<exists>d \<in> set devs. device_id d = did
               \<and> distinct (map fst sl)
               \<and> fst ` set sl \<subseteq> set (capabilities d)
               \<and> (\<forall>c. (\<forall>p \<in> set PLATFORMS. \<not> claimed_by imp p (capabilities d) c)
                      \<longrightarrow> c \<notin> fst ` set sl)"
    using d a by blast
qed

theorem assign_capabilities_slots_witness:
  "assign_capabilities (import_module Map.empty) example_PLATFORMS
       [example_tv, example_doorbell] = Inr example_assignments
   \<and> map_of example_assignments (device_id example_doorbell) = Some [(''button'', ''button'')]
   \<and> distinct (map fst [(''button'', ''button'')])
   \<and> ''battery'' \<notin> fst ` set [(''button'', ''button'')]"
  using example_assign assign_capabilities_slots [OF example_assign]
  by (simp add: example_assignments_def example_doorbell_def)

section \<open>The loops against the draw-down of the specification\<close>

text \<open>
  On a pool without repeated entries, the inner loop removes exactly the returned
  capabilities from the pool and gives each of them that was in the pool to the platform.
\<close>

lemma draw_down_distinct:
  "distinct caps \<Longrightarrow> draw_down p ys (caps, sl) = (caps', sl') \<Longrightarrow>
     caps' = filter (\<lambda>c. c \<notin> set ys) caps
     \<and> map_of sl' = (\<lambda>c. if c \<in> set ys \<and> c \<in> set caps then Some p else map_of sl c)"
proof (induction ys arbitrary: caps sl)
  case Nil
  then show ?case by simp
next
  case (Cons y ys)
  show ?case
  proof (cases "y \<in> set caps")
    case False
    with Cons.prems have "draw_down p ys (caps, sl) = (caps', sl')" by simp
    from Cons.IH[OF Cons.prems(1) this]
    have 1: "caps' = filter (\<lambda>c. c \<notin> set ys) caps"
      and 2: "map_of sl' = (\<lambda>c. if c \<in> set ys \<and> c \<in> set caps then Some p else map_of sl c)"
      by simp_all
    from False have "filter (\<lambda>c. c \<notin> set ys) caps = filter (\<lambda>c. c \<notin> set (y # ys)) caps"
      by (intro filter_cong) auto
    with 1 have "caps' = filter (\<lambda>c. c \<notin> set (y # ys)) caps" by simp
    moreover from 2 False
    have "map_of sl' = (\<lambda>c. if c \<in> set (y # ys) \<and> c \<in> set caps then Some p else map_of sl c)"
      by auto
    ultimately show ?thesis by simp
  next
    case True
    with Cons.prems
    have dd: "draw_down p ys (remove1 y caps, AList.update y p sl) = (caps', sl')" by simp
    from Cons.prems(1) have d: "distinct (remove1 y caps)" by simp
    from Cons.prems(1) have r: "remove1 y caps = filter (\<lambda>c. c \<noteq> y) caps"
      by (simp add: distinct_remove1_removeAll removeAll_filter_not_eq) (metis)
    from Cons.IH[OF d dd]
    have 1: "caps' = filter (\<lambda>c. c \<notin> set ys) (remove1 y caps)"
      and 2: "map_of sl' = (\<lambda>c. if c \<in> set ys \<and> c \<in> set (remove1 y caps) then Some p
                                 else map_of (AList.update y p sl) c)"
      by simp_all
    from 1 r have "caps' = filter (\<lambda>c. c \<notin> set (y # ys)) caps"
      by (simp add: conj_commute)
    moreover
    have "map_of sl' = (\<lambda>c. if c \<in> set (y # ys) \<and> c \<in> set caps then Some p else map_of sl c)"
      unfolding 2 using True Cons.prems(1) by (auto simp: update_conv' fun_eq_iff)
    ultimately show ?thesis by simp
  qed
qed

lemma spec_draw_down_dom:
  "spec_draw_down imp ps pool = Inr later \<Longrightarrow> dom later \<subseteq> set pool"
proof (induction ps arbitrary: pool later)
  case Nil
  then show ?case by auto
next
  case (Cons p ps)
  from Cons.prems obtain m where m: "imp p = Some m"
    by (cases "imp p") simp_all
  define claimed where "claimed =
     (case m ''get_capabilities'' of None \<Rightarrow> []
      | Some g \<Rightarrow> (case g pool of None \<Rightarrow> [] | Some ys \<Rightarrow> filter (\<lambda>c. c \<in> set pool) ys))"
  have cl: "set claimed \<subseteq> set pool"
    by (auto simp: claimed_def split: option.splits)
  from Cons.prems m obtain rest where
    rest: "spec_draw_down imp ps (filter (\<lambda>c. c \<notin> set claimed) pool) = Inr rest"
    and later: "later = (\<lambda>c. if c \<in> set claimed then Some p else rest c)"
    by (auto simp: claimed_def[symmetric] Let_def split: sum.splits)
  from Cons.IH[OF rest] have dr: "dom rest \<subseteq> set pool" by auto
  show ?case
  proof
    fix c
    assume "c \<in> dom later"
    then have "c \<in> set claimed \<or> c \<in> dom rest"
      unfolding later by (auto split: if_splits)
    with cl dr show "c \<in> set pool" by blast
  qed
qed


text \<open>
  The platform loop started from a slot dictionary \<open>sl\<close> fails where the draw-down of
  the specification fails, and otherwise returns \<open>sl\<close> overridden by its result.
\<close>

lemma assign_platforms_refines:
  "distinct caps \<Longrightarrow>
     (case assign_platforms imp ps (caps, sl) of
        Inl e \<Rightarrow> spec_draw_down imp ps caps = Inl e
      | Inr (caps', sl') \<Rightarrow>
          (\<exists>later. spec_draw_down imp ps caps = Inr later \<and> map_of sl' = map_of sl ++ later))"
proof (induction ps arbitrary: caps sl)
  case Nil
  then show ?case by simp
next
  case (Cons p ps)
  show ?case
  proof (cases "imp p")
    case None
    then show ?thesis by simp
  next
    case (Some m)
    define ys where "ys =
       (case m ''get_capabilities'' of None \<Rightarrow> []
        | Some g \<Rightarrow> (case g caps of None \<Rightarrow> [] | Some ys \<Rightarrow> ys))"
    define claimed where "claimed = filter (\<lambda>c. c \<in> set caps) ys"
    obtain caps1 sl1 where dd: "draw_down p ys (caps, sl) = (caps1, sl1)"
      by (cases "draw_down p ys (caps, sl)")
    have src: "assign_platforms imp (p # ps) (caps, sl) = assign_platforms imp ps (caps1, sl1)"
      using Some dd by (auto simp: ys_def split: option.splits)
    have spec: "spec_draw_down imp (p # ps) caps =
       (case spec_draw_down imp ps (filter (\<lambda>c. c \<notin> set claimed) caps) of
          Inl e \<Rightarrow> Inl e
        | Inr later \<Rightarrow> Inr (\<lambda>c. if c \<in> set claimed then Some p else later c))"
      using Some by (auto simp: claimed_def ys_def Let_def split: option.splits sum.splits)
    from draw_down_distinct[OF Cons.prems dd]
    have c1: "caps1 = filter (\<lambda>c. c \<notin> set ys) caps"
      and s1: "map_of sl1 = (\<lambda>c. if c \<in> set ys \<and> c \<in> set caps then Some p else map_of sl c)"
      by simp_all
    have pool: "filter (\<lambda>c. c \<notin> set claimed) caps = caps1"
      unfolding c1 claimed_def by (intro filter_cong) auto
    have d1: "distinct caps1" unfolding c1 using Cons.prems by simp
    note ih = Cons.IH[OF d1, of sl1]
    show ?thesis
    proof (cases "assign_platforms imp ps (caps1, sl1)")
      case (Inl e)
      with ih have "spec_draw_down imp ps caps1 = Inl e" by simp
      with Inl show ?thesis unfolding src spec pool by simp
    next
      case (Inr res)
      obtain caps' sl' where res: "res = (caps', sl')" by (cases res)
      with Inr ih obtain later where l: "spec_draw_down imp ps caps1 = Inr later"
        and ms: "map_of sl' = map_of sl1 ++ later" by auto
      from spec_draw_down_dom[OF l] have dl: "dom later \<subseteq> set caps1" .
      have "map_of sl' = map_of sl ++ (\<lambda>c. if c \<in> set claimed then Some p else later c)"
      proof
        fix c
        show "map_of sl' c = (map_of sl ++ (\<lambda>c. if c \<in> set claimed then Some p else later c)) c"
        proof (cases "c \<in> set claimed")
          case True
          then have "c \<notin> set caps1" unfolding c1 claimed_def by simp
          with dl have "later c = None" by blast
          with True show ?thesis unfolding ms s1 by (auto simp: map_add_def claimed_def)
        next
          case False
          then show ?thesis unfolding ms s1 by (auto simp: map_add_def claimed_def split: option.splits)
        qed
      qed
      with Inr res l show ?thesis unfolding src spec pool by simp
    qed
  qed
qed


lemma assign_devices_error:
  "assign_devices imp P devs acc = Inl e \<Longrightarrow>
     \<exists>d \<in> set devs. assign_platforms imp P (capabilities d, []) = Inl e"
proof (induction devs arbitrary: acc)
  case Nil
  then show ?case by simp
next
  case (Cons d devs)
  show ?case
  proof (cases "assign_platforms imp P (capabilities d, [])")
    case (Inl e')
    with Cons.prems have "e' = e" by simp
    with Inl show ?thesis by simp
  next
    case (Inr res)
    obtain caps' sl where "res = (caps', sl)" by (cases res)
    with Inr Cons.prems
    have "assign_devices imp P devs (AList.update (device_id d) sl acc) = Inl e" by simp
    from Cons.IH[OF this] show ?thesis by simp
  qed
qed

text \<open>
  Claim C2.  For devices whose capability list has no repeated entry (the capability
  set of the data model), \<open>_assign_capabilities\<close> computes for every device the
  draw-down of the specification over the platform list: platforms are asked in list
  order, each is offered only the capabilities still unclaimed, what it claims is
  removed before the next platform is asked, and a capability goes to the first platform
  that claims it.  It fails exactly with the error of that draw-down for some device.
\<close>

theorem assign_capabilities_draws_down:
  assumes "\<forall>d \<in> set devs. distinct (capabilities d)"
  shows "(assign_capabilities imp PLATFORMS devs = Inr asg \<longrightarrow> map_of asg did = Some sl \<longrightarrow>
            (\<exists>d \<in> set devs. device_id d = did
               \<and> spec_draw_down imp PLATFORMS (capabilities d) = Inr (map_of sl)))
       \<and> (assign_capabilities imp PLATFORMS devs = Inl e \<longrightarrow>
            (\<exists>d \<in> set devs. spec_draw_down imp PLATFORMS (capabilities d) = Inl e))"
proof (intro conjI impI)
  assume "assign_capabilities imp PLATFORMS devs = Inr asg" and m: "map_of asg did = Some sl"
  then have ad: "assign_devices imp PLATFORMS devs [] = Inr asg"
    by (simp add: assign_capabilities_def)
  from assign_devices_entry[OF ad m] obtain d caps' where d: "d \<in> set devs" "device_id d = did"
    and ap: "assign_platforms imp PLATFORMS (capabilities d, []) = Inr (caps', sl)"
    by auto
  from assms d(1) have "distinct (capabilities d)" by blast
  from assign_platforms_refines[OF this, of imp PLATFORMS "[]"] ap
  have "spec_draw_down imp PLATFORMS (capabilities d) = Inr (map_of sl)" by auto
  with d show "\<exists>d \<in> set devs. device_id d = did
               \<and> spec_draw_down imp PLATFORMS (capabilities d) = Inr (map_of sl)" by blast
next
  assume "assign_capabilities imp PLATFORMS devs = Inl e"
  then have "assign_devices imp PLATFORMS devs [] = Inl e"
    by (simp add: assign_capabilities_def)
  from assign_devices_error[OF this] obtain d where d: "d \<in> set devs"
    and ap: "assign_platforms imp PLATFORMS (capabilities d, []) = Inl e" by blast
  from assms d have "distinct (capabilities d)" by blast
  from assign_platforms_refines[OF this, of imp PLATFORMS "[]"] ap
  have "spec_draw_down imp PLATFORMS (capabilities d) = Inl e" by simp
  with d show "\<exists>d \<in> set devs. spec_draw_down imp PLATFORMS (capabilities d) = Inl e" by blast
qed

theorem assign_capabilities_draws_down_witness:
  "distinct (capabilities example_tv) \<and> distinct (capabilities example_doorbell)
   \<and> assign_capabilities (import_module Map.empty) example_PLATFORMS
        [example_tv, example_doorbell] = Inr example_assignments
   \<and> map_of example_assignments ''tv-1''
        = Some [(''mediaInputSource'', ''button''), (''audioVolume'', ''media_player'')]
   \<and> spec_draw_down (import_module Map.empty) example_PLATFORMS (capabilities example_tv)
        = Inr (map_of [(''mediaInputSource'', ''button''), (''audioVolume'', ''media_player'')])"
proof -
  have h: "\<forall>d \<in> set [example_tv, example_doorbell]. distinct (capabilities d)"
    by (simp add: example_tv_def example_doorbell_def)
  have m: "map_of example_assignments ''tv-1''
        = Some [(''mediaInputSource'', ''button''), (''audioVolume'', ''media_player'')]"
    by (simp add: example_assignments_def)
  have i: "device_id example_doorbell \<noteq> ''tv-1''" "device_id example_tv = ''tv-1''"
    by (simp_all add: example_tv_def example_doorbell_def)
  from assign_capabilities_draws_down [OF h, of "import_module Map.empty" example_PLATFORMS
      example_assignments "''tv-1''"
      "[(''mediaInputSource'', ''button''), (''audioVolume'', ''media_player'')]"]
    example_assign m i
  have "spec_draw_down (import_module Map.empty) example_PLATFORMS (capabilities example_tv)
        = Inr (map_of [(''mediaInputSource'', ''button''), (''audioVolume'', ''media_player'')])"
    by simp
  with h m example_assign show ?thesis by simp
qed


text \<open>
  The hypothesis on the capability list is needed: \<open>list.remove\<close> takes out one
  occurrence only, so a capability listed twice stays in the pool after its first claim
  and the next platform that claims it overwrites the slot.
\<close>

lemma repeated_capability_last_claim:
  "assign_capabilities (import_module Map.empty) [''button'', ''media_player'']
     [\<lparr>device_id = ''tv-2'', label = ''TV'',
       capabilities = [''mediaInputSource'', ''mediaInputSource''], status = ()\<rparr>]
   = Inr [(''tv-2'', [(''mediaInputSource'', ''media_player'')])]"
  by (simp add: assign_capabilities_def import_module_def
        button_module_def media_player_module_def button_get_capabilities_def
        media_player_get_capabilities_def table_probe_def
        CAPABILITY_TO_BUTTON_def CAPABILITY_TO_MEDIA_PLAYER_def
        Capability_scene_control_def Capability_button_def Capability_momentary_def
        Capability_panic_alarm_def Capability_water_sensor_def Capability_smoke_detector_def
        Capability_carbon_monoxide_detector_def Capability_chime_def
        Capability_media_input_source_def Capability_washer_operating_state_def
        Capability_dryer_operating_state_def Capability_dishwasher_operating_state_def
        Capability_oven_operating_state_def Capability_robot_cleaner_cleaning_mode_def
        Capability_tv_channel_def Capability_audio_volume_def Capability_media_playback_def)

section \<open>Which platform modules take part in the assignment\<close>

lemma vacuum_no_probe: "\<not> hasattr vacuum_module ''get_capabilities''"
  by (simp add: hasattr_def vacuum_module_def)

text \<open>
  Claim C7, as stated, at the vacuum module: it declares \<open>get_vacuum_capabilities\<close>
  and no \<open>get_capabilities\<close>, so the assignment loop skips it, and a robot cleaner whose
  only capability is in the vacuum table gets an empty slot dictionary.
\<close>

theorem vacuum_probe_counterexample:
  "import_module Map.empty ''vacuum'' = Some vacuum_module
   \<and> \<not> hasattr vacuum_module ''get_capabilities''
   \<and> get_vacuum_capabilities [''robotCleanerMovement''] = Some [''robotCleanerMovement'']
   \<and> assign_capabilities (import_module Map.empty) [''vacuum'']
        [\<lparr>device_id = ''robot-1'', label = ''Robot'', capabilities = [''robotCleanerMovement''],
          status = ()\<rparr>] = Inr [(''robot-1'', [])]"
  by (simp add: import_module_def hasattr_def vacuum_module_def assign_capabilities_def
        get_vacuum_capabilities_def CAPABILITY_TO_VACUUM_def
        Capability_robot_cleaner_movement_def Capability_robot_cleaner_cleaning_mode_def)

text \<open>
  Claim C7, amended.  The modules button, media_player, number and select each declare
  \<open>get_capabilities\<close>, and the assignment loop calls it on the current pool and draws
  down what it returns.  The vacuum module declares \<open>get_vacuum_capabilities\<close> and no
  \<open>get_capabilities\<close>; the loop passes over it, and no capability of any device is ever
  assigned to the vacuum platform.
\<close>

theorem platform_probes_in_assignment:
  "assign_platforms (import_module other) (''button'' # rest) (caps, sl) =
     (case button_get_capabilities caps of
        None \<Rightarrow> assign_platforms (import_module other) rest (caps, sl)
      | Some assigned \<Rightarrow>
          assign_platforms (import_module other) rest (draw_down ''button'' assigned (caps, sl)))
   \<and> assign_platforms (import_module other) (''media_player'' # rest) (caps, sl) =
     (case media_player_get_capabilities caps of
        None \<Rightarrow> assign_platforms (import_module other) rest (caps, sl)
      | Some assigned \<Rightarrow>
          assign_platforms (import_module other) rest
            (draw_down ''media_player'' assigned (caps, sl)))
   \<and> assign_platforms (import_module other) (''number'' # rest) (caps, sl) =
     (case number_get_capabilities caps of
        None \<Rightarrow> assign_platforms (import_module other) rest (caps, sl)
      | Some assigned \<Rightarrow>
          assign_platforms (import_module other) rest (draw_down ''number'' assigned (caps, sl)))
   \<and> assign_platforms (import_module other) (''select'' # rest) (caps, sl) =
     (case select_get_capabilities caps of
        None \<Rightarrow> assign_platforms (import_module other) rest (caps, sl)
      | Some assigned \<Rightarrow>
          assign_platforms (import_module other) rest (draw_down ''select'' assigned (caps, sl)))
   \<and> hasattr vacuum_module ''get_vacuum_capabilities''
   \<and> \<not> hasattr vacuum_module ''get_capabilities''
   \<and> assign_platforms (import_module other) (''vacuum'' # rest) (caps, sl) =
       assign_platforms (import_module other) rest (caps, sl)
   \<and> (assign_capabilities (import_module other) PLATFORMS devs = Inr asg \<longrightarrow>
        map_of asg did = Some slots \<longrightarrow> ''vacuum'' \<notin> snd ` set slots)"
proof (intro conjI impI)
  show "assign_platforms (import_module other) (''button'' # rest) (caps, sl) =
     (case button_get_capabilities caps of
        None \<Rightarrow> assign_platforms (import_module other) rest (caps, sl)
      | Some assigned \<Rightarrow>
          assign_platforms (import_module other) rest (draw_down ''button'' assigned (caps, sl)))"
    by (simp add: import_module_def button_module_def split: option.splits)
  show "assign_platforms (import_module other) (''media_player'' # rest) (caps, sl) =
     (case media_player_get_capabilities caps of
        None \<Rightarrow> assign_platforms (import_module other) rest (caps, sl)
      | Some assigned \<Rightarrow>
          assign_platforms (import_module other) rest
            (draw_down ''media_player'' assigned (caps, sl)))"
    by (simp add: import_module_def media_player_module_def split: option.splits)
  show "assign_platforms (import_module other) (''number'' # rest) (caps, sl) =
     (case number_get_capabilities caps of
        None \<Rightarrow> assign_platforms (import_module other) rest (caps, sl)
      | Some assigned \<Rightarrow>
          assign_platforms (import_module other) rest (draw_down ''number'' assigned (caps, sl)))"
    by (simp add: import_module_def number_module_def split: option.splits)
  show "assign_platforms (import_module other) (''select'' # rest) (caps, sl) =
     (case select_get_capabilities caps of
        None \<Rightarrow> assign_platforms (import_module other) rest (caps, sl)
      | Some assigned \<Rightarrow>
          assign_platforms (import_module other) rest (draw_down ''select'' assigned (caps, sl)))"
    by (simp add: import_module_def select_module_def split: option.splits)
  show "hasattr vacuum_module ''get_vacuum_capabilities''"
    by (simp add: hasattr_def vacuum_module_def)
  show "\<not> hasattr vacuum_module ''get_capabilities''" by (rule vacuum_no_probe)
  show "assign_platforms (import_module other) (''vacuum'' # rest) (caps, sl) =
       assign_platforms (import_module other) rest (caps, sl)"
    by (simp add: import_module_def vacuum_module_def)
next
  assume "assign_capabilities (import_module other) PLATFORMS devs = Inr asg"
    and m: "map_of asg did = Some slots"
  then have ad: "assign_devices (import_module other) PLATFORMS devs [] = Inr asg"
    by (simp add: assign_capabilities_def)
  from assign_devices_entry[OF ad m] obtain d caps' where "d \<in> set devs" and
    ap: "assign_platforms (import_module other) PLATFORMS (capabilities d, []) = Inr (caps', slots)"
    by auto
  show "''vacuum'' \<notin> snd ` set slots"
  proof
    assume "''vacuum'' \<in> snd ` set slots"
    from assign_platforms_values[OF ap this]
    obtain m where "import_module other ''vacuum'' = Some m" "hasattr m ''get_capabilities''"
      by auto
    moreover have "import_module other ''vacuum'' = Some vacuum_module"
      by (simp add: import_module_def)
    ultimately show False using vacuum_no_probe by simp
  qed
qed

theorem platform_probes_in_assignment_witness:
  "assign_capabilities (import_module Map.empty) example_PLATFORMS
       [example_tv, example_doorbell] = Inr example_assignments
   \<and> map_of example_assignments ''tv-1''
        = Some [(''mediaInputSource'', ''button''), (''audioVolume'', ''media_player'')]
   \<and> ''vacuum'' \<notin> snd ` set [(''mediaInputSource'', ''button''), (''audioVolume'', ''media_player'')]"
  using example_assign
    platform_probes_in_assignment [where other = Map.empty and PLATFORMS = example_PLATFORMS
      and devs = "[example_tv, example_doorbell]" and asg = example_assignments
      and did = "''tv-1''"
      and slots = "[(''mediaInputSource'', ''button''), (''audioVolume'', ''media_player'')]"]
  by (simp add: example_assignments_def)

section \<open>Lookups in the assignment table\<close>

text \<open>
  Claim C9.  For a platform name that is not the empty string, \<open>any_assigned\<close> is true
  exactly when \<open>get_assigned\<close> returns a non-empty list for the same device id and
  platform; for a device id that is not in the assignment table \<open>get_assigned\<close>
  returns the empty list and \<open>any_assigned\<close> is false.
\<close>

theorem any_assigned_iff_get_assigned:
  "(platform \<noteq> [] \<longrightarrow>
      any_assigned self dev_id platform = (get_assigned self dev_id platform \<noteq> []))
   \<and> (map_of (broker_assignments self) dev_id = None \<longrightarrow>
      get_assigned self dev_id platform = [] \<and> \<not> any_assigned self dev_id platform)"
proof (cases "map_of (broker_assignments self) dev_id")
  case None
  then show ?thesis by (simp add: any_assigned_def get_assigned_def)
next
  case (Some sl)
  have "platform \<noteq> [] \<Longrightarrow>
          list_ex (\<lambda>value. value \<noteq> []) (filter (\<lambda>value. value = platform) (map snd sl))
            = (map fst (filter (\<lambda>(key, value). value = platform) sl) \<noteq> [])"
    by (induction sl) auto
  with Some show ?thesis by (simp add: any_assigned_def get_assigned_def)
qed

theorem any_assigned_iff_get_assigned_witness:
  "(''media_player'' \<noteq> []
     \<and> any_assigned example_broker ''tv-1'' ''media_player''
     \<and> get_assigned example_broker ''tv-1'' ''media_player'' = [''audioVolume''])
   \<and> (map_of (broker_assignments example_broker) ''lamp-9'' = None
     \<and> get_assigned example_broker ''lamp-9'' ''media_player'' = []
     \<and> \<not> any_assigned example_broker ''lamp-9'' ''media_player'')"
  using any_assigned_iff_get_assigned [of "''media_player''" example_broker "''tv-1''"]
    any_assigned_iff_get_assigned [of "''media_player''" example_broker "''lamp-9''"]
  by (simp add: get_assigned_def example_broker_def example_assignments_def)

section \<open>Invariants of the event loop\<close>

lemma update_list_all:
  "list_all P al \<Longrightarrow> P (k, v) \<Longrightarrow> list_all P (AList.update k v al)"
  by (induction al) auto

lemma keyed_by_id_lookup:
  "keyed_by_id devs \<Longrightarrow> map_of devs k = Some d \<Longrightarrow> device_id d = k"
  by (auto simp: keyed_by_id_def list_all_iff dest: map_of_SomeD)

lemma devices_by_id_keyed:
  "keyed_by_id acc \<Longrightarrow> keyed_by_id (devices_by_id ds acc)"
proof (induction ds arbitrary: acc)
  case Nil
  then show ?case by simp
next
  case (Cons d ds)
  from Cons.prems have "keyed_by_id (AList.update (device_id d) d acc)"
    unfolding keyed_by_id_def by (rule update_list_all) simp
  then show ?case by (simp add: Cons.IH)
qed

lemma DeviceBroker_init_keyed:
  "DeviceBroker_init imp P app ds = Inr b \<Longrightarrow> keyed_by_id (devices b)"
proof -
  have "keyed_by_id (devices_by_id ds [])"
    by (rule devices_by_id_keyed) (simp add: keyed_by_id_def)
  moreover assume "DeviceBroker_init imp P app ds = Inr b"
  ultimately show ?thesis
    by (auto simp: DeviceBroker_init_def split: sum.splits)
qed

text \<open>What one processed event appends to the effects.\<close>

lemma handle_events_step:
  obtains (ignored) "\<not> known_device_event devs evt"
      and "handle_events upd EB (evt # rest) (devs, effs, U) = handle_events upd EB rest (devs, effs, U)"
  | (processed) device where "known_device_event devs evt"
      and "map_of devs (evt_device_id evt) = Some device"
      and "handle_events upd EB (evt # rest) (devs, effs, U) =
             handle_events upd EB rest
               (AList.update (evt_device_id evt)
                  (device\<lparr>status := upd (status device) (evt_component_id evt) (evt_capability evt)
                      (evt_attribute evt) (evt_value evt) (evt_data evt)\<rparr>) devs,
                effs @ (if is_button_event evt
                        then [BusFire EB (button_event_data evt (label device)),
                              Log DEBUG ''Fired button event: %s'']
                        else [Log DEBUG ''Push update received: %s'']),
                insert (device_id device) U)"
proof (cases "known_device_event devs evt")
  case False
  then have "handle_events upd EB (evt # rest) (devs, effs, U) = handle_events upd EB rest (devs, effs, U)"
    by (auto simp: known_device_event_def)
  with False show ?thesis by (rule ignored)
next
  case True
  then obtain device where d: "map_of devs (evt_device_id evt) = Some device"
    by (auto simp: known_device_event_def)
  from True have t: "evt_event_type evt = EVENT_TYPE_DEVICE"
    by (simp add: known_device_event_def)
  show ?thesis
    by (rule processed[OF True d]) (simp add: t d Let_def is_button_event_def)
qed


text \<open>
  The loop changes the status of held devices only: the keys and the labels of the
  dictionary stay as they are, and so do the notions defined from them.
\<close>

lemma update_labels:
  "map_of devs k = Some d \<Longrightarrow> label d' = label d \<Longrightarrow>
     map_option label \<circ> map_of (AList.update k d' devs) = map_option label \<circ> map_of devs"
  by (auto simp: update_conv' fun_eq_iff)

lemma known_device_event_labels:
  assumes "map_option label \<circ> map_of devs1 = map_option label \<circ> map_of devs"
  shows "known_device_event devs1 = known_device_event devs"
proof
  fix e :: event
  from assms have "map_option label (map_of devs1 (evt_device_id e))
      = map_option label (map_of devs (evt_device_id e))"
    by (simp add: fun_eq_iff)
  then have "(map_of devs1 (evt_device_id e) = None) = (map_of devs (evt_device_id e) = None)"
    by (cases "map_of devs1 (evt_device_id e)"; cases "map_of devs (evt_device_id e)") simp_all
  then show "known_device_event devs1 e = known_device_event devs e"
    by (simp add: known_device_event_def)
qed

lemma device_label_labels:
  assumes "map_option label \<circ> map_of devs1 = map_option label \<circ> map_of devs"
  shows "device_label devs1 = device_label devs"
proof
  fix k
  from assms have "map_option label (map_of devs1 k) = map_option label (map_of devs k)"
    by (simp add: fun_eq_iff)
  then show "device_label devs1 k = device_label devs k"
    by (cases "map_of devs1 k"; cases "map_of devs k") (simp_all add: device_label_def)
qed

lemma handle_events_devices:
  "handle_events upd EB evts (devs, effs, U) = (devs', effs', U') \<Longrightarrow>
     map_option label \<circ> map_of devs' = map_option label \<circ> map_of devs
     \<and> (keyed_by_id devs \<longrightarrow> keyed_by_id devs')"
proof (induction evts arbitrary: devs effs U)
  case Nil
  then show ?case by simp
next
  case (Cons evt rest)
  show ?case
  proof (cases rule: handle_events_step[of devs evt upd EB rest effs U])
    case ignored
    with Cons.prems have "handle_events upd EB rest (devs, effs, U) = (devs', effs', U')" by simp
    then show ?thesis by (rule Cons.IH)
  next
    case (processed device)
    define device' where "device' = device\<lparr>status := upd (status device) (evt_component_id evt)
        (evt_capability evt) (evt_attribute evt) (evt_value evt) (evt_data evt)\<rparr>"
    define devs1 where "devs1 = AList.update (evt_device_id evt) device' devs"
    from processed(3) Cons.prems obtain effs1 U1 where
      "handle_events upd EB rest (devs1, effs1, U1) = (devs', effs', U')"
      by (simp add: devs1_def device'_def)
    from Cons.IH[OF this]
    have ih: "map_option label \<circ> map_of devs' = map_option label \<circ> map_of devs1"
      "keyed_by_id devs1 \<longrightarrow> keyed_by_id devs'" by blast+
    have l: "map_option label \<circ> map_of devs1 = map_option label \<circ> map_of devs"
      unfolding devs1_def using processed(2) by (rule update_labels) (simp add: device'_def)
    have "keyed_by_id devs1" if k: "keyed_by_id devs"
    proof -
      from k processed(2) have "device_id device = evt_device_id evt"
        by (rule keyed_by_id_lookup)
      then have "device_id device' = evt_device_id evt" by (simp add: device'_def)
      with k show ?thesis unfolding devs1_def keyed_by_id_def
        by (intro update_list_all) simp_all
    qed
    with ih l show ?thesis by simp
  qed
qed

lemma handle_events_updated:
  "handle_events upd EB evts (devs, effs, U) = (devs', effs', U') \<Longrightarrow> keyed_by_id devs \<Longrightarrow>
     U' = U \<union> evt_device_id ` {e \<in> set evts. known_device_event devs e}"
proof (induction evts arbitrary: devs effs U)
  case Nil
  then show ?case by simp
next
  case (Cons evt rest)
  show ?case
  proof (cases rule: handle_events_step[of devs evt upd EB rest effs U])
    case ignored
    with Cons.prems have "handle_events upd EB rest (devs, effs, U) = (devs', effs', U')" by simp
    from Cons.IH[OF this Cons.prems(2)] ignored(1) show ?thesis by auto
  next
    case (processed device)
    define device' where "device' = device\<lparr>status := upd (status device) (evt_component_id evt)
        (evt_capability evt) (evt_attribute evt) (evt_value evt) (evt_data evt)\<rparr>"
    define devs1 where "devs1 = AList.update (evt_device_id evt) device' devs"
    from Cons.prems(2) processed(2) have id: "device_id device = evt_device_id evt"
      by (rule keyed_by_id_lookup)
    from processed(3) Cons.prems(1) obtain effs1 where
      r: "handle_events upd EB rest (devs1, effs1, insert (evt_device_id evt) U) = (devs', effs', U')"
      by (simp add: devs1_def device'_def id)
    have l: "map_option label \<circ> map_of devs1 = map_option label \<circ> map_of devs"
      unfolding devs1_def using processed(2) by (rule update_labels) (simp add: device'_def)
    have k1: "keyed_by_id devs1"
      using Cons.prems(2) unfolding devs1_def keyed_by_id_def
      by (intro update_list_all) (simp_all add: device'_def id)
    from Cons.IH[OF r k1]
    have "U' = insert (evt_device_id evt) U
             \<union> evt_device_id ` {e \<in> set rest. known_device_event devs e}"
      by (simp add: known_device_event_labels[OF l])
    with processed(1) show ?thesis by auto
  qed
qed

lemma handle_events_effects:
  "handle_events upd EB evts (devs, effs, U) = (devs', effs', U') \<Longrightarrow>
     \<exists>per. effs' = effs @ per \<and> filter is_DispatcherSend per = []
       \<and> filter is_BusFire per =
           map (\<lambda>e. BusFire EB (button_event_data e (device_label devs (evt_device_id e))))
             (filter (\<lambda>e. known_device_event devs e \<and> is_button_event e) evts)"
proof (induction evts arbitrary: devs effs U)
  case Nil
  then show ?case by simp
next
  case (Cons evt rest)
  show ?case
  proof (cases rule: handle_events_step[of devs evt upd EB rest effs U])
    case ignored
    with Cons.prems have "handle_events upd EB rest (devs, effs, U) = (devs', effs', U')" by simp
    from Cons.IH[OF this] ignored(1) show ?thesis by simp
  next
    case (processed device)
    define device' where "device' = device\<lparr>status := upd (status device) (evt_component_id evt)
        (evt_capability evt) (evt_attribute evt) (evt_value evt) (evt_data evt)\<rparr>"
    define devs1 where "devs1 = AList.update (evt_device_id evt) device' devs"
    define one where "one = (if is_button_event evt
                        then [BusFire EB (button_event_data evt (label device)),
                              Log DEBUG ''Fired button event: %s'']
                        else [Log DEBUG ''Push update received: %s''])"
    from processed(3) Cons.prems obtain U1 where
      r: "handle_events upd EB rest (devs1, effs @ one, U1) = (devs', effs', U')"
      by (simp add: devs1_def device'_def one_def)
    have l: "map_option label \<circ> map_of devs1 = map_option label \<circ> map_of devs"
      unfolding devs1_def using processed(2) by (rule update_labels) (simp add: device'_def)
    from Cons.IH[OF r] obtain per1 where p: "effs' = (effs @ one) @ per1"
      "filter is_DispatcherSend per1 = []"
      "filter is_BusFire per1 =
           map (\<lambda>e. BusFire EB (button_event_data e (device_label devs (evt_device_id e))))
             (filter (\<lambda>e. known_device_event devs e \<and> is_button_event e) rest)"
      by (auto simp: known_device_event_labels[OF l] device_label_labels[OF l])
    from processed(2) have dl: "device_label devs (evt_device_id evt) = label device"
      by (simp add: device_label_def)
    have "effs' = effs @ (one @ per1)" using p(1) by simp
    moreover have "filter is_DispatcherSend (one @ per1) = []"
      using p(2) by (simp add: one_def)
    moreover have "filter is_BusFire (one @ per1) =
           map (\<lambda>e. BusFire EB (button_event_data e (device_label devs (evt_device_id e))))
             (filter (\<lambda>e. known_device_event devs e \<and> is_button_event e) (evt # rest))"
      using p(3) processed(1) dl by (simp add: one_def)
    ultimately show ?thesis by blast
  qed
qed


text \<open>The handler keeps the broker's dictionary keyed by device id.\<close>

lemma event_handler_keyed:
  assumes "keyed_by_id (devices self)"
  shows "keyed_by_id (devices (fst (event_handler upd EB SIG self req)))"
proof (cases "req_installed_app_id req \<noteq> installed_app_id self")
  case True
  with assms show ?thesis by (simp add: event_handler_def)
next
  case False
  obtain devs' effs' U' where
    h: "handle_events upd EB (req_events req) (devices self, [], {}) = (devs', effs', U')"
    by (cases "handle_events upd EB (req_events req) (devices self, [], {})")
  from handle_events_devices[OF h] assms have "keyed_by_id devs'" by simp
  with False h show ?thesis by (simp add: event_handler_def)
qed

section \<open>Push events from a foreign installation\<close>

text \<open>
  Claim C4.  A batch whose installed application id differs from the broker's leaves
  the broker as it was, statuses included, and has no effect on the host: nothing is
  fired, dispatched or logged, and the handler returns normally.
\<close>

theorem event_handler_foreign_installation:
  "req_installed_app_id req \<noteq> installed_app_id self \<Longrightarrow>
     event_handler apply_attribute_update EVENT_BUTTON SIGNAL_SMARTTHINGS_UPDATE self req
       = (self, [])"
  by (simp add: event_handler_def)

theorem event_handler_foreign_installation_witness:
  "req_installed_app_id example_foreign_request \<noteq> installed_app_id example_broker
   \<and> event_handler example_update ''smartthingsng.button'' ''smartthingsng_update''
        example_broker example_foreign_request = (example_broker, [])"
proof -
  have h: "req_installed_app_id example_foreign_request \<noteq> installed_app_id example_broker"
    by (simp add: example_foreign_request_def example_broker_def)
  from h event_handler_foreign_installation [OF h] show ?thesis by simp
qed

section \<open>One notification per batch\<close>

text \<open>
  Claim C3.  For a batch whose installed application id is the broker's, the handler
  sends exactly one dispatcher notification, on \<open>SIGNAL_SMARTTHINGS_UPDATE\<close>, as the
  last thing it does, and the set it carries is the set of device ids of the device
  events of the batch whose device the broker holds, whatever the number of events.
\<close>

theorem event_handler_single_dispatch:
  assumes "req_installed_app_id req = installed_app_id self"
    and "keyed_by_id (devices self)"
  shows "filter is_DispatcherSend (snd (event_handler upd EB SIG self req)) =
           [DispatcherSend SIG
              (set (map evt_device_id
                      (filter (known_device_event (devices self)) (req_events req))))]
       \<and> last (snd (event_handler upd EB SIG self req)) =
           DispatcherSend SIG
              (set (map evt_device_id
                      (filter (known_device_event (devices self)) (req_events req))))"
proof -
  obtain devs' effs' U' where
    h: "handle_events upd EB (req_events req) (devices self, [], {}) = (devs', effs', U')"
    by (cases "handle_events upd EB (req_events req) (devices self, [], {})")
  from handle_events_updated[OF h assms(2)]
  have u: "U' = set (map evt_device_id
                      (filter (known_device_event (devices self)) (req_events req)))"
    by auto
  from handle_events_effects[OF h] have d: "filter is_DispatcherSend effs' = []" by auto
  from assms(1) h have "snd (event_handler upd EB SIG self req) = effs' @ [DispatcherSend SIG U']"
    by (simp add: event_handler_def)
  with d u show ?thesis by simp
qed

theorem event_handler_single_dispatch_witness:
  "req_installed_app_id example_request = installed_app_id example_broker
   \<and> keyed_by_id (devices example_broker)
   \<and> filter is_DispatcherSend
        (snd (event_handler example_update ''smartthingsng.button'' ''smartthingsng_update''
                example_broker example_request))
      = [DispatcherSend ''smartthingsng_update'' {''bell-1'', ''tv-1''}]"
proof -
  have h1: "req_installed_app_id example_request = installed_app_id example_broker"
    by (simp add: example_request_def example_broker_def)
  have h2: "keyed_by_id (devices example_broker)"
    by (simp add: keyed_by_id_def example_broker_def example_tv_def example_doorbell_def)
  have s: "set (map evt_device_id
              (filter (known_device_event (devices example_broker))
                 (req_events example_request))) = {''bell-1'', ''tv-1''}"
    by (simp add: example_request_def example_events_def example_broker_def
          known_device_event_def EVENT_TYPE_DEVICE_def insert_commute)
  note t = event_handler_single_dispatch [OF h1 h2, of example_update "''smartthingsng.button''"
      "''smartthingsng_update''", THEN conjunct1, unfolded s]
  from h1 h2 t show ?thesis by (intro conjI)
qed

section \<open>Button events\<close>

text \<open>
  Claim C5.  For a batch whose installed application id is the broker's, the events
  fired on the bus are, in batch order, one \<open>EVENT_BUTTON\<close> event for each device event
  of a held device with the button capability and the button attribute, carrying the
  component id, device id, location id, value, device label and data of that event; no
  other event of the batch fires anything.
\<close>

theorem event_handler_button_events:
  assumes "req_installed_app_id req = installed_app_id self"
  shows "filter is_BusFire (snd (event_handler upd EB SIG self req)) =
           map (\<lambda>e. BusFire EB
                  [(''component_id'', PStr (evt_component_id e)),
                   (''device_id'', PStr (evt_device_id e)),
                   (''location_id'', PStr (evt_location_id e)),
                   (''value'', evt_value e),
                   (''name'', PStr (device_label (devices self) (evt_device_id e))),
                   (''data'', evt_data e)])
             (filter (\<lambda>e. known_device_event (devices self) e \<and> is_button_event e)
                (req_events req))"
proof -
  obtain devs' effs' U' where
    h: "handle_events upd EB (req_events req) (devices self, [], {}) = (devs', effs', U')"
    by (cases "handle_events upd EB (req_events req) (devices self, [], {})")
  from handle_events_effects[OF h]
  have "filter is_BusFire effs' =
           map (\<lambda>e. BusFire EB (button_event_data e (device_label (devices self) (evt_device_id e))))
             (filter (\<lambda>e. known_device_event (devices self) e \<and> is_button_event e)
                (req_events req))"
    by auto
  moreover from assms h
  have "snd (event_handler upd EB SIG self req) = effs' @ [DispatcherSend SIG U']"
    by (simp add: event_handler_def)
  ultimately show ?thesis by (simp add: button_event_data_def)
qed

theorem event_handler_button_events_witness:
  "req_installed_app_id example_request = installed_app_id example_broker
   \<and> filter is_BusFire
        (snd (event_handler example_update ''smartthingsng.button'' ''smartthingsng_update''
                example_broker example_request))
      = [BusFire ''smartthingsng.button''
           [(''component_id'', PStr ''main''), (''device_id'', PStr ''bell-1''),
            (''location_id'', PStr ''loc-1''), (''value'', PStr ''pushed''),
            (''name'', PStr ''Front door''), (''data'', PNone)]]"
proof -
  have h1: "req_installed_app_id example_request = installed_app_id example_broker"
    by (simp add: example_request_def example_broker_def)
  from event_handler_button_events [OF h1, of example_update "''smartthingsng.button''"
      "''smartthingsng_update''"]
  have "filter is_BusFire
        (snd (event_handler example_update ''smartthingsng.button'' ''smartthingsng_update''
                example_broker example_request))
      = [BusFire ''smartthingsng.button''
           [(''component_id'', PStr ''main''), (''device_id'', PStr ''bell-1''),
            (''location_id'', PStr ''loc-1''), (''value'', PStr ''pushed''),
            (''name'', PStr ''Front door''), (''data'', PNone)]]"
    by (simp add: example_request_def example_events_def example_broker_def
          known_device_event_def is_button_event_def device_label_def EVENT_TYPE_DEVICE_def
          Capability_button_def Attribute_button_def example_tv_def example_doorbell_def)
  with h1 show ?thesis by simp
qed

text \<open>The effects of the example batch, in order.\<close>

lemma example_batch_effects:
  "snd (event_handler example_update ''smartthingsng.button'' ''smartthingsng_update''
          example_broker example_request)
   = [BusFire ''smartthingsng.button''
        [(''component_id'', PStr ''main''), (''device_id'', PStr ''bell-1''),
         (''location_id'', PStr ''loc-1''), (''value'', PStr ''pushed''),
         (''name'', PStr ''Front door''), (''data'', PNone)],
      Log DEBUG ''Fired button event: %s'',
      Log DEBUG ''Push update received: %s'',
      Log DEBUG ''Push update received: %s'',
      DispatcherSend ''smartthingsng_update'' {''tv-1'', ''bell-1''}]"
  by (simp add: event_handler_def example_request_def example_events_def example_broker_def
        example_update_def example_tv_def example_doorbell_def EVENT_TYPE_DEVICE_def
        Capability_button_def Attribute_button_def button_event_data_def)

section \<open>Scene listing\<close>

text \<open>
  Claim C8.  When the scene request succeeds, \<open>async_get_entry_scenes\<close> returns the
  scenes fetched for the location id of the entry; when it fails with a
  \<open>ClientResponseError\<close> of status 403 the result is the empty list; any other
  \<open>ClientResponseError\<close> is raised to the caller.
\<close>

theorem async_get_entry_scenes_results:
  "(get_scenes (entry_location_id entry) = Inr scenes \<longrightarrow>
      snd (async_get_entry_scenes get_scenes entry) = Inr scenes)
   \<and> (get_scenes (entry_location_id entry) = Inl (ClientResponseError 403) \<longrightarrow>
      snd (async_get_entry_scenes get_scenes entry) = Inr [])
   \<and> (get_scenes (entry_location_id entry) = Inl (ClientResponseError st) \<and> st \<noteq> 403 \<longrightarrow>
      snd (async_get_entry_scenes get_scenes entry) = Inl (ClientResponseError st))"
  by (simp add: async_get_entry_scenes_def HTTPStatus_FORBIDDEN_def)

theorem async_get_entry_scenes_results_witness:
  "snd (async_get_entry_scenes
          (\<lambda>loc. if loc = ''home'' then Inr [''movie night'', ''away'']
                 else if loc = ''office'' then Inl (ClientResponseError 403)
                 else Inl (ClientResponseError 500))
          \<lparr>entry_title = ''Home'', entry_location_id = ''home''\<rparr>)
     = Inr [''movie night'', ''away'']
   \<and> snd (async_get_entry_scenes
          (\<lambda>loc. if loc = ''home'' then Inr [''movie night'', ''away'']
                 else if loc = ''office'' then Inl (ClientResponseError 403)
                 else Inl (ClientResponseError 500))
          \<lparr>entry_title = ''Office'', entry_location_id = ''office''\<rparr>)
     = Inr []
   \<and> snd (async_get_entry_scenes
          (\<lambda>loc. if loc = ''home'' then Inr [''movie night'', ''away'']
                 else if loc = ''office'' then Inl (ClientResponseError 403)
                 else Inl (ClientResponseError 500))
          \<lparr>entry_title = ''Cabin'', entry_location_id = ''cabin''\<rparr>)
     = Inl (ClientResponseError 500)"
  using async_get_entry_scenes_results
    [of "\<lambda>loc. if loc = ''home'' then Inr [''movie night'', ''away'']
                 else if loc = ''office'' then Inl (ClientResponseError 403)
                 else Inl (ClientResponseError 500)"
        "\<lparr>entry_title = ''Home'', entry_location_id = ''home''\<rparr>" "[''movie night'', ''away'']" 500]
    async_get_entry_scenes_results
    [of "\<lambda>loc. if loc = ''home'' then Inr [''movie night'', ''away'']
                 else if loc = ''office'' then Inl (ClientResponseError 403)
                 else Inl (ClientResponseError 500)"
        "\<lparr>entry_title = ''Office'', entry_location_id = ''office''\<rparr>" "[]" 500]
    async_get_entry_scenes_results
    [of "\<lambda>loc. if loc = ''home'' then Inr [''movie night'', ''away'']
                 else if loc = ''office'' then Inl (ClientResponseError 403)
                 else Inl (ClientResponseError 500)"
        "\<lparr>entry_title = ''Cabin'', entry_location_id = ''cabin''\<rparr>" "[]" 500]
  by simp

section \<open>Failures of command sending\<close>

text \<open>
  Claim C6, as stated, at the \<open>send_command\<close> service: the command request raises,
  the handler logs the failure and returns normally; the exception does not reach the
  caller.
\<close>

theorem send_command_service_counterexample:
  "send_command_service (\<lambda>entry dev cap cmd comp args. Inl (OtherException ''timeout''))
     [\<lparr>entry_title = ''Home'', entry_location_id = ''home''\<rparr>]
     [(''device_id'', PStr ''tv-1''), (''capability'', PStr ''switch''), (''command'', PStr ''on'')]
   = ([Log ERROR ''Failed to send command to %s: %s.%s(%s) - Error: %s''], Inr ())"
  by (simp add: send_command_service_def dict_get_def)

text \<open>
  Claim C6, amended.  When the device command of a button press fails with an
  exception, \<open>async_press\<close> logs the failure at error level and raises the same exception
  to its caller.  When the command request of the \<open>send_command\<close> service fails with an
  exception (the call having a device id, a capability and a command, and an entry being
  configured), the handler logs the failure at error level and returns normally: the
  exception is not raised to the caller.
\<close>

theorem command_failure_handling:
  "(device_command (button_device self) ''main'' (button_capability self) (button_command self) []
        = Inl ex \<and> is_Exception ex \<longrightarrow>
      async_press device_command self
        = ([Log ERROR ''Failed to press button %s (%s.%s): %s''], Inl ex))
   \<and> (truthy (dict_get call_data ''device_id'' PNone)
        \<and> truthy (dict_get call_data ''capability'' PNone)
        \<and> truthy (dict_get call_data ''command'' PNone)
        \<and> execute_device_command entry
             (dict_get call_data ''device_id'' PNone) (dict_get call_data ''capability'' PNone)
             (dict_get call_data ''command'' PNone)
             (dict_get call_data ''component_id'' (PStr ''main''))
             (dict_get call_data ''arguments'' (PList [])) = Inl ex'
        \<and> is_Exception ex' \<longrightarrow>
      send_command_service execute_device_command (entry # entries) call_data
        = ([Log ERROR ''Failed to send command to %s: %s.%s(%s) - Error: %s''], Inr ()))"
  by (simp add: async_press_def send_command_service_def Let_def)

theorem command_failure_handling_witness:
  "async_press (\<lambda>dev comp cap cmd args. (Inl (OtherException ''timeout'') :: exn + unit))
      \<lparr>button_device = example_doorbell, button_capability = ''button'',
       button_command = ''push'', button_attr_name = ''Front door Push Button - Push''\<rparr>
     = ([Log ERROR ''Failed to press button %s (%s.%s): %s''], Inl (OtherException ''timeout''))
   \<and> send_command_service (\<lambda>entry dev cap cmd comp args. Inl (OtherException ''timeout''))
       [\<lparr>entry_title = ''Home'', entry_location_id = ''home''\<rparr>]
       [(''device_id'', PStr ''tv-1''), (''capability'', PStr ''switch''),
        (''command'', PStr ''on'')]
     = ([Log ERROR ''Failed to send command to %s: %s.%s(%s) - Error: %s''], Inr ())"
  using command_failure_handling
    [of "\<lambda>dev comp cap cmd args. (Inl (OtherException ''timeout'') :: exn + unit)"
        "\<lparr>button_device = example_doorbell, button_capability = ''button'',
          button_command = ''push'', button_attr_name = ''Front door Push Button - Push''\<rparr>"
        "OtherException ''timeout''"
        "[(''device_id'', PStr ''tv-1''), (''capability'', PStr ''switch''),
          (''command'', PStr ''on'')]"
        "\<lambda>entry dev cap cmd comp args. Inl (OtherException ''timeout'')"
        "\<lparr>entry_title = ''Home'', entry_location_id = ''home''\<rparr>"
        "OtherException ''timeout''" "[]"]
  by (simp add: dict_get_def)

section \<open>Availability of an entity\<close>

text \<open>
  Claim C10.  \<open>SmartThingsEntity.available\<close> is false only when the status object of
  the wrapped device has a \<open>switch_state\<close> attribute equal to the string
  \<open>unavailable\<close> (and it is false then); when the status object has no \<open>switch_state\<close>
  attribute the entity is available.
\<close>

theorem available_false_only_unavailable:
  "(\<not> available self \<longrightarrow>
      status (entity_device self) ''switch_state'' = Some (PStr ''unavailable''))
   \<and> (status (entity_device self) ''switch_state'' = Some (PStr ''unavailable'') \<longrightarrow>
      \<not> available self)
   \<and> (status (entity_device self) ''switch_state'' = None \<longrightarrow> available self)"
  by (auto simp: available_def split: option.splits)

theorem available_false_only_unavailable_witness:
  "\<not> available \<lparr>entity_device = \<lparr>device_id = ''d1'', label = ''Lamp'',
        capabilities = [''switch''], status = [''switch_state'' \<mapsto> PStr ''unavailable'']\<rparr>\<rparr>
   \<and> available \<lparr>entity_device = \<lparr>device_id = ''d2'', label = ''TV'',
        capabilities = [''tvChannel''], status = Map.empty\<rparr>\<rparr>"
  using available_false_only_unavailable
    [of "\<lparr>entity_device = \<lparr>device_id = ''d1'', label = ''Lamp'',
        capabilities = [''switch''], status = [''switch_state'' \<mapsto> PStr ''unavailable'']\<rparr>\<rparr>"]
    available_false_only_unavailable
    [of "\<lparr>entity_device = \<lparr>device_id = ''d2'', label = ''TV'',
        capabilities = [''tvChannel''], status = Map.empty\<rparr>\<rparr>"]
  by simp

end
